theory Spec2Isabelle
  imports Main "HOL-Library.Word"
begin

section \<open>The relational store\<close>

text \<open>
  The program keeps its state in a relational store that it reaches through an
  object-relational mapper.  A table is the list of its rows in storage order.  Only the
  columns that the modelled functions read or write are kept; the bookkeeping columns
  \<open>created_at\<close> and \<open>updated_at\<close> are left out.  Column values that are only copied and
  compared (widths, modification times, timestamps, row ids) are integers; the one
  column the code does arithmetic on, \<open>login_attempts\<close>, is a 64-bit machine word.
\<close>

record File =
  file_uid :: string
  file_photo_uid :: string
  file_root :: string
  file_name :: string
  file_hash :: string
  file_type :: string
  file_width :: int
  file_primary :: bool
  file_missing :: bool
  file_error :: string
  file_mod_time :: int
  file_deleted_at :: "int option"

record Photo =
  photo_uid :: string
  photo_path :: string
  photo_private :: bool
  photo_pending :: bool
  photo_deleted_at :: "int option"

record PhotoAlbum =
  pa_photo_uid :: string
  pa_album_uid :: string
  pa_hidden :: bool

record Album =
  album_uid :: string
  album_title :: string

record Label =
  label_uid :: string
  label_name :: string

record Duplicate =
  dup_file_root :: string
  dup_file_name :: string
  dup_mod_time :: int

text \<open>
  \<open>User\<close> of \<^verbatim>\<open>entity\<close>: the primary key, the identity columns, the role flags that the
  modelled methods read, the failed-login counter, the time of the last login and the
  soft-delete timestamp.
\<close>

record User =
  ID :: int
  UserUID :: string
  UserName :: string
  FullName :: string
  UserDisabled :: bool
  RoleAdmin :: bool
  RoleGuest :: bool
  LoginAttempts :: "64 word"
  LoginAt :: "int option"
  DeletedAt :: "int option"

record Password =
  pw_uid :: string
  pw_hash :: string

datatype tbl =
  files_tbl | photos_tbl | photos_albums_tbl | albums_tbl | labels_tbl
  | duplicates_tbl | users_tbl | passwords_tbl

text \<open>
  Everything the code does besides changing rows is recorded, in order, in a trace: the
  statements it sends to the store, the time it sleeps, what it logs, and the calls to
  the collaborators that are consumed at their boundary (count recomputation, change
  notifier, YAML backup, client configuration, cover cache, on-disk removal).
\<close>

datatype payload = UIDs "string list" | Entities "Photo list"

datatype effect =
    Read tbl
  | Write tbl
  | Sleep "64 word"
  | LogInfo string
  | LogWarn string
  | LogError string
  | Recount
  | Notify string string payload
  | SaveYaml string
  | ClientConfig
  | CoverCache
  | Remove string

text \<open>
  The state of the world: the tables, the clock the store stamps rows with, the trace,
  and an oracle for failures.  Each fallible call (a statement sent to the store, a
  collaborator that returns an error) draws the next entry of \<open>faults\<close>; \<open>True\<close> makes
  that call fail, and an exhausted oracle means that nothing fails any more.
\<close>

record world =
  files :: "File list"
  photos :: "Photo list"
  photos_albums :: "PhotoAlbum list"
  albums :: "Album list"
  labels :: "Label list"
  duplicates :: "Duplicate list"
  users :: "User list"
  passwords :: "Password list"
  now :: int
  faults :: "bool list"
  trace :: "effect list"

datatype error = DbError | Errorf string

definition emit :: "effect \<Rightarrow> world \<Rightarrow> world" where
  "emit e w = w\<lparr>trace := trace w @ [e]\<rparr>"

definition attempt :: "effect \<Rightarrow> world \<Rightarrow> bool \<times> world" where
  "attempt e w =
     (case faults w of
        [] \<Rightarrow> (True, emit e w)
      | b # bs \<Rightarrow> (\<not> b, emit e (w\<lparr>faults := bs\<rparr>)))"

text \<open>The statements among the effects: what counts as an access to the store.\<close>

fun is_stmt :: "effect \<Rightarrow> bool" where
  "is_stmt (Read t) = True"
| "is_stmt (Write t) = True"
| "is_stmt e = False"

fun is_sleep :: "effect \<Rightarrow> bool" where
  "is_sleep (Sleep d) = True"
| "is_sleep e = False"

fun is_notify :: "effect \<Rightarrow> bool" where
  "is_notify (Notify event kind items) = True"
| "is_notify e = False"

text \<open>The effects that a call has added to the trace of the world it started from.\<close>

definition news :: "world \<Rightarrow> world \<Rightarrow> effect list" where
  "news w w' = drop (length (trace w)) (trace w')"

text \<open>
  \<^verbatim>\<open>Db()\<close> is the mapper's default handle.  On a model with a \<open>deleted_at\<close> column every
  statement built on it is scoped to the rows that are not soft-deleted, and its
  \<^verbatim>\<open>Delete\<close> sets the timestamp instead of removing the row.  The source relies on this:
  \<^verbatim>\<open>Files\<close> is documented to return "not-missing and not-deleted file entities" while its
  only explicit condition is \<^verbatim>\<open>file_missing = 0\<close>, the restore handler has to ask for
  \<^verbatim>\<open>Unscoped()\<close> to reach archived photos, and the raw statements of \<^verbatim>\<open>IndexedFiles\<close>
  and \<^verbatim>\<open>RenameFile\<close>, which the mapper does not rewrite, name \<open>deleted_at\<close> themselves.
\<close>

definition file_scoped :: "File \<Rightarrow> bool" where
  "file_scoped f = (file_deleted_at f = None)"

definition photo_scoped :: "Photo \<Rightarrow> bool" where
  "photo_scoped p = (photo_deleted_at p = None)"

definition user_scoped :: "User \<Rightarrow> bool" where
  "user_scoped u = (DeletedAt u = None)"

section \<open>Queries on files\<close>

subsection \<open>RenameFile\<close>

definition rename_row :: "string \<Rightarrow> string \<Rightarrow> string \<Rightarrow> string \<Rightarrow> File \<Rightarrow> File" where
  "rename_row srcRoot srcName destRoot destName f =
     (if file_root f = srcRoot \<and> file_name f = srcName
      then f\<lparr>file_root := destRoot, file_name := destName,
             file_missing := False, file_deleted_at := None\<rparr>
      else f)"

definition RenameFile ::
    "string \<Rightarrow> string \<Rightarrow> string \<Rightarrow> string \<Rightarrow> world \<Rightarrow> error option \<times> world" where
  "RenameFile srcRoot srcName destRoot destName w =
     (if srcRoot = [] \<or> srcName = [] \<or> destRoot = [] \<or> destName = []
      then (Some (Errorf ''can't rename''), w)
      else case attempt (Write files_tbl) w of
             (False, w1) \<Rightarrow> (Some DbError, w1)
           | (True, w1) \<Rightarrow>
               (None, w1\<lparr>files := map (rename_row srcRoot srcName destRoot destName) (files w1)\<rparr>))"

subsection \<open>SetPhotoPrimary\<close>

text \<open>
  The candidate query of \<^verbatim>\<open>SetPhotoPrimary\<close>: the scoped rows of the photo that are not
  missing and have type \<open>jpg\<close>, by descending width, first row only, projected to
  \<open>file_uid\<close>.  The store's order among rows of equal width is not fixed by the
  statement; the model takes the stable one (storage order).
\<close>

definition primary_candidates :: "string \<Rightarrow> world \<Rightarrow> File list" where
  "primary_candidates photoUID w =
     filter (\<lambda>f. file_scoped f \<and> file_photo_uid f = photoUID \<and> \<not> file_missing f
                 \<and> file_type f = ''jpg'') (files w)"

definition by_width_desc :: "File list \<Rightarrow> File list" where
  "by_width_desc fs = sort_key (\<lambda>f. - file_width f) fs"

definition pluck_widest :: "string \<Rightarrow> world \<Rightarrow> string list" where
  "pluck_widest photoUID w =
     map file_uid (take 1 (by_width_desc (primary_candidates photoUID w)))"

definition clear_others :: "string \<Rightarrow> string \<Rightarrow> File \<Rightarrow> File" where
  "clear_others photoUID fileUID f =
     (if file_scoped f \<and> file_photo_uid f = photoUID \<and> file_uid f \<noteq> fileUID
      then f\<lparr>file_primary := False\<rparr> else f)"

definition set_chosen :: "string \<Rightarrow> string \<Rightarrow> File \<Rightarrow> File" where
  "set_chosen photoUID fileUID f =
     (if file_scoped f \<and> file_photo_uid f = photoUID \<and> file_uid f = fileUID
      then f\<lparr>file_primary := True\<rparr> else f)"

text \<open>
  The two updates that end \<^verbatim>\<open>SetPhotoPrimary\<close>: the error of the first is dropped, the
  error of the second is the result.
\<close>

definition update_primary :: "string \<Rightarrow> string \<Rightarrow> world \<Rightarrow> error option \<times> world" where
  "update_primary photoUID fileUID w =
     (let w1 = (case attempt (Write files_tbl) w of
                  (False, w') \<Rightarrow> w'
                | (True, w') \<Rightarrow> w'\<lparr>files := map (clear_others photoUID fileUID) (files w')\<rparr>)
      in case attempt (Write files_tbl) w1 of
           (False, w2) \<Rightarrow> (Some DbError, w2)
         | (True, w2) \<Rightarrow> (None, w2\<lparr>files := map (set_chosen photoUID fileUID) (files w2)\<rparr>))"

definition SetPhotoPrimary :: "string \<Rightarrow> string \<Rightarrow> world \<Rightarrow> error option \<times> world" where
  "SetPhotoPrimary photoUID fileUID w =
     (if photoUID = [] then (Some (Errorf ''photo uid is missing''), w)
      else if fileUID \<noteq> [] then update_primary photoUID fileUID w
      else case attempt (Read files_tbl) w of
             (False, w1) \<Rightarrow> (Some DbError, w1)
           | (True, w1) \<Rightarrow>
               (case pluck_widest photoUID w1 of
                  [] \<Rightarrow> (Some (Errorf ''can't find primary file''), w1)
                | chosen # _ \<Rightarrow>
                    if chosen = [] then (Some (Errorf ''file uid is missing''), w1)
                    else update_primary photoUID chosen w1))"

text \<open>
  The rows of a photo that statements on the default handle can see, the rows of a photo
  that carry the primary flag (soft-deleted or not), and the candidates as the
  specification words them: the files of the photo that are not missing and are JPEGs.
\<close>

definition photo_files :: "string \<Rightarrow> world \<Rightarrow> File list" where
  "photo_files photoUID w =
     filter (\<lambda>f. file_scoped f \<and> file_photo_uid f = photoUID) (files w)"

definition primaries :: "string \<Rightarrow> world \<Rightarrow> File list" where
  "primaries photoUID w =
     filter (\<lambda>f. file_photo_uid f = photoUID \<and> file_primary f) (files w)"

definition spec_candidates :: "string \<Rightarrow> world \<Rightarrow> File list" where
  "spec_candidates photoUID w =
     filter (\<lambda>f. file_photo_uid f = photoUID \<and> \<not> file_missing f \<and> file_type f = ''jpg'')
       (files w)"

subsection \<open>IndexedFiles\<close>

text \<open>
  \<^verbatim>\<open>path.Join\<close> of the Go library for two elements: the elements from the first
  non-empty one on are joined with a slash and the result is cleaned.  \<^verbatim>\<open>path.Clean\<close>
  reads the path from the left and writes into a buffer: empty and \<open>.\<close> elements are
  dropped, a \<open>..\<close> element removes the element before it (back to \<open>dotdot\<close>, the point
  the buffer cannot be cut below), any other element is copied.
\<close>

function backtrack :: "string \<Rightarrow> nat \<Rightarrow> nat \<Rightarrow> nat" where
  "backtrack out w dotdot =
     (if w > dotdot \<and> out ! w \<noteq> CHR ''/'' then backtrack out (w - 1) dotdot else w)"
  by pat_completeness auto
termination
  by (relation "measure (\<lambda>(out, w, dotdot). w)") auto

declare backtrack.simps [simp del]

function Clean_loop :: "bool \<Rightarrow> string \<Rightarrow> string \<Rightarrow> nat \<Rightarrow> string" where
  "Clean_loop rooted [] out dotdot = out"
| "Clean_loop rooted (c # cs) out dotdot =
     (if c = CHR ''/'' then Clean_loop rooted cs out dotdot
      else if c = CHR ''.'' \<and> (cs = [] \<or> hd cs = CHR ''/'') then Clean_loop rooted cs out dotdot
      else if c = CHR ''.'' \<and> cs \<noteq> [] \<and> hd cs = CHR ''.''
              \<and> (tl cs = [] \<or> hd (tl cs) = CHR ''/'') then
        (if length out > dotdot
         then Clean_loop rooted (tl cs) (take (backtrack out (length out - 1) dotdot) out) dotdot
         else if \<not> rooted
         then Clean_loop rooted (tl cs) ((if out \<noteq> [] then out @ ''/'' else out) @ ''..'')
                (length ((if out \<noteq> [] then out @ ''/'' else out) @ ''..''))
         else Clean_loop rooted (tl cs) out dotdot)
      else Clean_loop rooted (dropWhile (\<lambda>x. x \<noteq> CHR ''/'') (c # cs))
             ((if (rooted \<and> length out \<noteq> 1) \<or> (\<not> rooted \<and> length out \<noteq> 0)
               then out @ ''/'' else out) @ takeWhile (\<lambda>x. x \<noteq> CHR ''/'') (c # cs))
             dotdot)"
  by pat_completeness auto
termination
  apply (relation "measure (\<lambda>(rooted, path, out, dotdot). length path)")
        apply simp
       apply simp
      apply simp
     apply simp
    apply simp
   apply simp
  apply (simp add: length_dropWhile_le less_Suc_eq_le)
  done

declare Clean_loop.simps [simp del]

definition Clean :: "string \<Rightarrow> string" where
  "Clean path =
     (if path = [] then ''.''
      else let rooted = (hd path = CHR ''/'');
               out = Clean_loop rooted (if rooted then tl path else path)
                       (if rooted then ''/'' else []) (if rooted then 1 else 0)
           in if out = [] then ''.'' else out)"

definition Join :: "string \<Rightarrow> string \<Rightarrow> string" where
  "Join a b =
     (if a \<noteq> [] then Clean (a @ ''/'' @ b)
      else if b \<noteq> [] then Clean b
      else [])"

type_synonym FileMap = "string \<rightharpoonup> int"

definition put_all :: "FileMap \<Rightarrow> (string \<times> string \<times> int) list \<Rightarrow> FileMap" where
  "put_all result rows =
     foldl (\<lambda>m (root, name, modTime). m(Join root name \<mapsto> modTime)) result rows"

definition duplicate_rows :: "world \<Rightarrow> (string \<times> string \<times> int) list" where
  "duplicate_rows w = map (\<lambda>d. (dup_file_root d, dup_file_name d, dup_mod_time d)) (duplicates w)"

definition indexed_rows :: "world \<Rightarrow> (string \<times> string \<times> int) list" where
  "indexed_rows w =
     map (\<lambda>f. (file_root f, file_name f, file_mod_time f))
       (filter (\<lambda>f. \<not> file_missing f \<and> file_deleted_at f = None) (files w))"

definition IndexedFiles :: "world \<Rightarrow> (FileMap \<times> error option) \<times> world" where
  "IndexedFiles w =
     (case attempt (Read duplicates_tbl) w of
        (False, w1) \<Rightarrow> ((Map.empty, Some DbError), w1)
      | (True, w1) \<Rightarrow>
          (let result = put_all Map.empty (duplicate_rows w1) in
           case attempt (Read files_tbl) w1 of
             (False, w2) \<Rightarrow> ((result, Some DbError), w2)
           | (True, w2) \<Rightarrow> ((put_all result (indexed_rows w2), None), w2)))"

text \<open>
  The value the snapshot holds for a key is the modification time of the last row with
  that key: a later assignment to the same map key overwrites an earlier one.
\<close>

definition latest :: "string \<Rightarrow> (string \<times> string \<times> int) list \<Rightarrow> int option" where
  "latest key rows =
     (case filter (\<lambda>(root, name, modTime). Join root name = key) rows of
        [] \<Rightarrow> None
      | r # rs \<Rightarrow> Some (snd (snd (last (r # rs)))))"

section \<open>Users and the credential check\<close>

text \<open>
  \<^verbatim>\<open>rnd.IsPPID\<close> (the test for a well-formed identifier with a given prefix) and the
  comparison of a password with a stored hash, \<^verbatim>\<open>Password.InvalidPassword\<close>, are
  parameters: their packages are not among the sources.
\<close>

definition Registered :: "(string \<Rightarrow> char \<Rightarrow> bool) \<Rightarrow> User \<Rightarrow> bool" where
  "Registered IsPPID m = (UserName m \<noteq> [] \<and> IsPPID (UserUID m) CHR ''u'')"

text \<open>
  Modelled from the spec: \<^verbatim>\<open>FindPassword\<close> is not among the sources.  The credential
  check reads the password record of the user from the password store; the first record
  for the identifier is returned, and a record that cannot be read is absent.
\<close>

definition FindPassword :: "string \<Rightarrow> world \<Rightarrow> Password option \<times> world" where
  "FindPassword uid w =
     (case attempt (Read passwords_tbl) w of
        (False, w1) \<Rightarrow> (None, w1)
      | (True, w1) \<Rightarrow> (find (\<lambda>p. pw_uid p = uid) (passwords w1), w1))"

text \<open>
  \<^verbatim>\<open>Db().Model(m)\<close> addresses the scoped row that carries the primary key of \<open>m\<close>; for a
  zero primary key the mapper adds no key condition, and the statement then addresses
  every scoped row.
\<close>

definition model_row :: "User \<Rightarrow> User \<Rightarrow> bool" where
  "model_row m u = (user_scoped u \<and> (ID m = 0 \<or> ID u = ID m))"

definition count_failure :: "User \<Rightarrow> User \<Rightarrow> User" where
  "count_failure m u = (if model_row m u then u\<lparr>LoginAttempts := LoginAttempts u + 1\<rparr> else u)"

definition count_login :: "User \<Rightarrow> int \<Rightarrow> User \<Rightarrow> User" where
  "count_login m t u = (if model_row m u then u\<lparr>LoginAttempts := 0, LoginAt := Some t\<rparr> else u)"

text \<open>
  The duration handed to \<^verbatim>\<open>time.Sleep\<close> is a signed 64-bit count of nanoseconds,
  computed as \<^verbatim>\<open>time.Second * 5 * time.Duration(m.LoginAttempts)\<close>; a duration that is not
  positive makes the call return at once.  \<open>pause\<close> is the time a call really waits.

  The update after a failed comparison is an expression on the column, so the record
  \<open>m\<close> in memory keeps its counter; the update after a successful one assigns values,
  which the mapper also writes into \<open>m\<close>.
\<close>

definition throttle :: "User \<Rightarrow> 64 word" where
  "throttle m = 1000000000 * 5 * LoginAttempts m"

definition pause :: "64 word \<Rightarrow> int" where
  "pause d = (if sint d \<le> 0 then 0 else sint d)"

definition InvalidPassword ::
    "(string \<Rightarrow> char \<Rightarrow> bool) \<Rightarrow> (Password \<Rightarrow> string \<Rightarrow> bool)
       \<Rightarrow> User \<Rightarrow> string \<Rightarrow> world \<Rightarrow> (bool \<times> User) \<times> world" where
  "InvalidPassword IsPPID pwInvalid m password w =
     (if \<not> Registered IsPPID m
      then ((True, m), emit (LogWarn ''only registered users can change their password'') w)
      else if password = [] then ((True, m), w)
      else case FindPassword (UserUID m) (emit (Sleep (throttle m)) w) of
             (None, w1) \<Rightarrow> ((True, m), w1)
           | (Some pw, w1) \<Rightarrow>
               if pwInvalid pw password
               then (case attempt (Write users_tbl) w1 of
                       (False, w2) \<Rightarrow> ((True, m), emit (LogError ''user: update login attempts'') w2)
                     | (True, w2) \<Rightarrow> ((True, m), w2\<lparr>users := map (count_failure m) (users w2)\<rparr>))
               else (case attempt (Write users_tbl) w1 of
                       (False, w2) \<Rightarrow>
                         ((False, m\<lparr>LoginAttempts := 0, LoginAt := Some (now w1)\<rparr>),
                          emit (LogError ''user: update last login'') w2)
                     | (True, w2) \<Rightarrow>
                         ((False, m\<lparr>LoginAttempts := 0, LoginAt := Some (now w1)\<rparr>),
                          w2\<lparr>users := map (count_login m (now w1)) (users w2)\<rparr>)))"

section \<open>Batch operations\<close>

subsection \<open>Requests, configuration and responses\<close>

datatype resource = ResourcePhotos | ResourceAlbums | ResourceLabels

datatype action = ActionDelete | ActionUpdate | ActionPrivate

text \<open>
  \<^verbatim>\<open>form.Selection\<close> with the identifier lists the handlers read.  A request carries the
  verdict of the access-control check for each resource and action, and the selection
  bound from its body (\<open>None\<close> when the body cannot be bound).
\<close>

record Selection =
  Photos :: "string list"
  Albums :: "string list"
  Labels :: "string list"

record request =
  allow :: "resource \<Rightarrow> action \<Rightarrow> bool"
  json :: "Selection option"

record config =
  ReadOnly :: bool
  FeaturesDelete :: bool
  BackupYaml :: bool

definition Auth :: "request \<Rightarrow> resource \<Rightarrow> action \<Rightarrow> bool" where
  "Auth c r a = allow c r a"

datatype message =
    ErrNoItemsSelected | ErrNoAlbumsSelected | ErrNoLabelsSelected | ErrDeleteFailed
  | MsgSelectionArchived | MsgSelectionRestored | MsgSelectionApproved | MsgAlbumsDeleted
  | MsgSelectionProtected | MsgLabelsDeleted | MsgPermanentlyDeleted

datatype response =
    AbortUnauthorized
  | AbortBadRequest
  | AbortEntityNotFound
  | AbortSaveFailed
  | AbortFeatureDisabled
  | Abort nat message
  | Error nat message
  | JSON nat message

definition StatusOK :: nat where
  "StatusOK = 200"

definition StatusBadRequest :: nat where
  "StatusBadRequest = 400"

definition StatusInternalServerError :: nat where
  "StatusInternalServerError = 500"

fun bad_request :: "response \<Rightarrow> bool" where
  "bad_request AbortBadRequest = True"
| "bad_request (Abort code m) = (code = StatusBadRequest)"
| "bad_request r = False"

subsection \<open>Collaborators\<close>

text \<open>
  The collaborators that only act outside the store are effects of the trace.
\<close>

definition SavePhotoAsYaml :: "Photo \<Rightarrow> world \<Rightarrow> world" where
  "SavePhotoAsYaml p w = emit (SaveYaml (photo_uid p)) w"

definition UpdateClientConfig :: "world \<Rightarrow> world" where
  "UpdateClientConfig w = emit ClientConfig w"

definition FlushCoverCache :: "world \<Rightarrow> world" where
  "FlushCoverCache w = emit CoverCache w"

definition logError :: "string \<Rightarrow> bool \<times> world \<Rightarrow> world" where
  "logError prefix r = (case r of (True, w) \<Rightarrow> w | (False, w) \<Rightarrow> emit (LogError prefix) w)"

text \<open>
  Modelled from the spec: \<^verbatim>\<open>entity.UpdatePhotoCounts\<close> is not among the sources.  It
  recomputes the aggregate photo counts, columns that none of the modelled rows carry,
  and may fail.
\<close>

definition UpdatePhotoCounts :: "world \<Rightarrow> bool \<times> world" where
  "UpdatePhotoCounts w = attempt Recount w"

text \<open>
  Modelled from the spec: \<^verbatim>\<open>query.PhotoSelection\<close> is not among the sources.  A
  selection names the targets of a batch operation; the photos matching it are the rows,
  archived ones included, whose identifier the selection lists.  A selection that
  resolves to no photo is the not-found outcome, and so is a query that fails: in both
  cases the result is an error.
\<close>

definition PhotoSelection :: "Selection \<Rightarrow> world \<Rightarrow> Photo list option \<times> world" where
  "PhotoSelection f w =
     (case attempt (Read photos_tbl) w of
        (False, w1) \<Rightarrow> (None, w1)
      | (True, w1) \<Rightarrow>
          (case filter (\<lambda>p. photo_uid p \<in> set (Photos f)) (photos w1) of
             [] \<Rightarrow> (None, w1)
           | p # ps \<Rightarrow> (Some (p # ps), w1)))"

text \<open>
  Modelled from the spec: the methods \<^verbatim>\<open>Archive\<close>, \<^verbatim>\<open>Restore\<close> and \<^verbatim>\<open>Approve\<close> of a photo
  are not among the sources.  Archiving soft-deletes the photo and hides its album
  memberships, restoring clears the soft-delete timestamp, approving clears the pending
  state; each may fail, and then changes nothing.
\<close>

definition Archive :: "Photo \<Rightarrow> world \<Rightarrow> bool \<times> world" where
  "Archive p w =
     (case attempt (Write photos_tbl) w of
        (False, w1) \<Rightarrow> (False, w1)
      | (True, w1) \<Rightarrow>
          (True, w1\<lparr>photos :=
                       map (\<lambda>q. if photo_uid q = photo_uid p \<and> photo_scoped q
                                 then q\<lparr>photo_deleted_at := Some (now w1)\<rparr> else q) (photos w1),
                     photos_albums :=
                       map (\<lambda>a. if pa_photo_uid a = photo_uid p
                                 then a\<lparr>pa_hidden := True\<rparr> else a) (photos_albums w1)\<rparr>))"

definition Restore :: "Photo \<Rightarrow> world \<Rightarrow> bool \<times> world" where
  "Restore p w =
     (case attempt (Write photos_tbl) w of
        (False, w1) \<Rightarrow> (False, w1)
      | (True, w1) \<Rightarrow>
          (True, w1\<lparr>photos :=
                       map (\<lambda>q. if photo_uid q = photo_uid p
                                 then q\<lparr>photo_deleted_at := None\<rparr> else q) (photos w1)\<rparr>))"

definition Approve :: "Photo \<Rightarrow> world \<Rightarrow> bool \<times> world" where
  "Approve p w =
     (case attempt (Write photos_tbl) w of
        (False, w1) \<Rightarrow> (False, w1)
      | (True, w1) \<Rightarrow>
          (True, w1\<lparr>photos :=
                       map (\<lambda>q. if photo_uid q = photo_uid p
                                 then q\<lparr>photo_pending := False\<rparr> else q) (photos w1)\<rparr>))"

text \<open>
  Modelled from the spec: \<^verbatim>\<open>photoprism.Delete\<close> is not among the sources.  It removes
  the on-disk content of a photo and then the photo with its files; when the removal
  fails the photo is retained.
\<close>

definition Delete :: "Photo \<Rightarrow> world \<Rightarrow> bool \<times> world" where
  "Delete p w =
     (case attempt (Remove (photo_uid p)) w of
        (False, w1) \<Rightarrow> (False, w1)
      | (True, w1) \<Rightarrow>
          (True, w1\<lparr>photos := filter (\<lambda>q. photo_uid q \<noteq> photo_uid p) (photos w1),
                     files := filter (\<lambda>f. file_photo_uid f \<noteq> photo_uid p) (files w1)\<rparr>))"

text \<open>
  Modelled from the spec: the method \<^verbatim>\<open>Delete\<close> of a label is not among the sources; it
  deletes the label, and may fail.
\<close>

definition LabelDelete :: "Label \<Rightarrow> world \<Rightarrow> bool \<times> world" where
  "LabelDelete l w =
     (case attempt (Write labels_tbl) w of
        (False, w1) \<Rightarrow> (False, w1)
      | (True, w1) \<Rightarrow> (True, w1\<lparr>labels := filter (\<lambda>x. label_uid x \<noteq> label_uid l) (labels w1)\<rparr>))"

definition EntitiesArchived :: "string \<Rightarrow> string list \<Rightarrow> world \<Rightarrow> world" where
  "EntitiesArchived kind uids w = emit (Notify ''archived'' kind (UIDs uids)) w"

definition EntitiesRestored :: "string \<Rightarrow> string list \<Rightarrow> world \<Rightarrow> world" where
  "EntitiesRestored kind uids w = emit (Notify ''restored'' kind (UIDs uids)) w"

definition EntitiesDeleted :: "string \<Rightarrow> string list \<Rightarrow> world \<Rightarrow> world" where
  "EntitiesDeleted kind uids w = emit (Notify ''deleted'' kind (UIDs uids)) w"

definition EntitiesUpdated :: "string \<Rightarrow> Photo list \<Rightarrow> world \<Rightarrow> world" where
  "EntitiesUpdated kind ps w = emit (Notify ''updated'' kind (Entities ps)) w"

subsection \<open>Archive and restore\<close>

text \<open>
  The statements of the archive handler when no YAML backup is kept: the soft delete of
  the scoped photos of the selection, and the update that hides the album memberships
  of the selected photos.
\<close>

definition soft_delete :: "string list \<Rightarrow> int \<Rightarrow> Photo \<Rightarrow> Photo" where
  "soft_delete uids t p =
     (if photo_scoped p \<and> photo_uid p \<in> set uids then p\<lparr>photo_deleted_at := Some t\<rparr> else p)"

definition hide :: "string list \<Rightarrow> PhotoAlbum \<Rightarrow> PhotoAlbum" where
  "hide uids a = (if pa_photo_uid a \<in> set uids then a\<lparr>pa_hidden := True\<rparr> else a)"

fun archive_loop :: "Photo list \<Rightarrow> world \<Rightarrow> world" where
  "archive_loop [] w = w"
| "archive_loop (p # ps) w =
     (case Archive p w of
        (False, w1) \<Rightarrow> archive_loop ps (emit (LogError ''archive'') w1)
      | (True, w1) \<Rightarrow> archive_loop ps (SavePhotoAsYaml p w1))"

definition archive_finish :: "Selection \<Rightarrow> world \<Rightarrow> response \<times> world" where
  "archive_finish f w =
     (JSON StatusOK MsgSelectionArchived,
      EntitiesArchived ''photos'' (Photos f)
        (UpdateClientConfig (logError ''photos'' (UpdatePhotoCounts w))))"

definition BatchPhotosArchive :: "config \<Rightarrow> request \<Rightarrow> world \<Rightarrow> response \<times> world" where
  "BatchPhotosArchive conf c w =
     (if \<not> Auth c ResourcePhotos ActionDelete then (AbortUnauthorized, w)
      else case json c of
        None \<Rightarrow> (AbortBadRequest, w)
      | Some f \<Rightarrow>
          if length (Photos f) = 0 then (Abort StatusBadRequest ErrNoItemsSelected, w)
          else if BackupYaml conf
          then (case PhotoSelection f (emit (LogInfo ''photos: archiving'') w) of
                  (None, w1) \<Rightarrow> (AbortEntityNotFound, w1)
                | (Some ps, w1) \<Rightarrow> archive_finish f (archive_loop ps w1))
          else (case attempt (Write photos_tbl) (emit (LogInfo ''photos: archiving'') w) of
                  (False, w1) \<Rightarrow> (AbortSaveFailed, emit (LogError ''archive'') w1)
                | (True, w1) \<Rightarrow>
                    (case attempt (Write photos_albums_tbl)
                            (w1\<lparr>photos := map (soft_delete (Photos f) (now w1)) (photos w1)\<rparr>) of
                       (False, w2) \<Rightarrow> archive_finish f (emit (LogError ''archive'') w2)
                     | (True, w2) \<Rightarrow>
                         archive_finish f
                           (w2\<lparr>photos_albums := map (hide (Photos f)) (photos_albums w2)\<rparr>))))"

text \<open>The unscoped update of the restore handler.\<close>

definition undelete :: "string list \<Rightarrow> Photo \<Rightarrow> Photo" where
  "undelete uids p = (if photo_uid p \<in> set uids then p\<lparr>photo_deleted_at := None\<rparr> else p)"

fun restore_loop :: "Photo list \<Rightarrow> world \<Rightarrow> world" where
  "restore_loop [] w = w"
| "restore_loop (p # ps) w =
     (case Restore p w of
        (False, w1) \<Rightarrow> restore_loop ps (emit (LogError ''restore'') w1)
      | (True, w1) \<Rightarrow> restore_loop ps (SavePhotoAsYaml p w1))"

definition restore_finish :: "Selection \<Rightarrow> world \<Rightarrow> response \<times> world" where
  "restore_finish f w =
     (JSON StatusOK MsgSelectionRestored,
      EntitiesRestored ''photos'' (Photos f)
        (UpdateClientConfig (logError ''photos'' (UpdatePhotoCounts w))))"

definition BatchPhotosRestore :: "config \<Rightarrow> request \<Rightarrow> world \<Rightarrow> response \<times> world" where
  "BatchPhotosRestore conf c w =
     (if \<not> Auth c ResourcePhotos ActionDelete then (AbortUnauthorized, w)
      else case json c of
        None \<Rightarrow> (AbortBadRequest, w)
      | Some f \<Rightarrow>
          if length (Photos f) = 0 then (Abort StatusBadRequest ErrNoItemsSelected, w)
          else if BackupYaml conf
          then (case PhotoSelection f (emit (LogInfo ''photos: restoring'') w) of
                  (None, w1) \<Rightarrow> (AbortEntityNotFound, w1)
                | (Some ps, w1) \<Rightarrow> restore_finish f (restore_loop ps w1))
          else (case attempt (Write photos_tbl) (emit (LogInfo ''photos: restoring'') w) of
                  (False, w1) \<Rightarrow> (AbortSaveFailed, emit (LogError ''restore'') w1)
                | (True, w1) \<Rightarrow>
                    restore_finish f (w1\<lparr>photos := map (undelete (Photos f)) (photos w1)\<rparr>)))"

subsection \<open>Approve\<close>

fun approve_loop :: "Photo list \<Rightarrow> Photo list \<Rightarrow> world \<Rightarrow> Photo list \<times> world" where
  "approve_loop [] approved w = (approved, w)"
| "approve_loop (p # ps) approved w =
     (case Approve p w of
        (False, w1) \<Rightarrow> approve_loop ps approved (emit (LogError ''approve'') w1)
      | (True, w1) \<Rightarrow> approve_loop ps (approved @ [p]) (SavePhotoAsYaml p w1))"

definition BatchPhotosApprove :: "request \<Rightarrow> world \<Rightarrow> response \<times> world" where
  "BatchPhotosApprove c w =
     (if \<not> Auth c ResourcePhotos ActionUpdate then (AbortUnauthorized, w)
      else case json c of
        None \<Rightarrow> (AbortBadRequest, w)
      | Some f \<Rightarrow>
          if length (Photos f) = 0 then (Abort StatusBadRequest ErrNoItemsSelected, w)
          else (case PhotoSelection f (emit (LogInfo ''photos: approving'') w) of
                  (None, w1) \<Rightarrow> (AbortEntityNotFound, w1)
                | (Some ps, w1) \<Rightarrow>
                    (case approve_loop ps [] w1 of
                       (approved, w2) \<Rightarrow>
                         (JSON StatusOK MsgSelectionApproved,
                          EntitiesUpdated ''photos'' approved (UpdateClientConfig w2)))))"

subsection \<open>Delete albums\<close>

text \<open>
  Modelled from the spec: the models \<^verbatim>\<open>entity.Album\<close> and \<^verbatim>\<open>entity.PhotoAlbum\<close> are not
  among the sources, so the sources do not show whether their \<^verbatim>\<open>Delete\<close> removes or
  stamps a row.  The spec has the deletion of albums remove the album rows and their join
  rows.
\<close>

definition delete_albums :: "string list \<Rightarrow> Album list \<Rightarrow> Album list" where
  "delete_albums uids rows = filter (\<lambda>a. album_uid a \<notin> set uids) rows"

definition delete_memberships :: "string list \<Rightarrow> PhotoAlbum list \<Rightarrow> PhotoAlbum list" where
  "delete_memberships uids rows = filter (\<lambda>a. pa_album_uid a \<notin> set uids) rows"

text \<open>The handler drops the errors of both statements.\<close>

definition BatchAlbumsDelete :: "request \<Rightarrow> world \<Rightarrow> response \<times> world" where
  "BatchAlbumsDelete c w =
     (if \<not> Auth c ResourceAlbums ActionDelete then (AbortUnauthorized, w)
      else case json c of
        None \<Rightarrow> (AbortBadRequest, w)
      | Some f \<Rightarrow>
          if length (Albums f) = 0 then (Abort StatusBadRequest ErrNoAlbumsSelected, w)
          else (let w1 = (case attempt (Write albums_tbl) (emit (LogInfo ''albums: deleting'') w) of
                            (False, w') \<Rightarrow> w'
                          | (True, w') \<Rightarrow> w'\<lparr>albums := delete_albums (Albums f) (albums w')\<rparr>);
                    w2 = (case attempt (Write photos_albums_tbl) w1 of
                            (False, w') \<Rightarrow> w'
                          | (True, w') \<Rightarrow>
                              w'\<lparr>photos_albums :=
                                    delete_memberships (Albums f) (photos_albums w')\<rparr>)
                in (JSON StatusOK MsgAlbumsDeleted,
                    EntitiesDeleted ''albums'' (Albums f) (UpdateClientConfig w2))))"

subsection \<open>Toggle privacy\<close>

text \<open>
  The update of the privacy handler assigns
  \<^verbatim>\<open>CASE WHEN photo_private > 0 THEN 0 ELSE 1 END\<close> to the scoped photos of the selection.
\<close>

definition toggle_private :: "string list \<Rightarrow> Photo \<Rightarrow> Photo" where
  "toggle_private uids p =
     (if photo_scoped p \<and> photo_uid p \<in> set uids
      then p\<lparr>photo_private := (if photo_private p then False else True)\<rparr> else p)"

fun yaml_loop :: "Photo list \<Rightarrow> world \<Rightarrow> world" where
  "yaml_loop [] w = w"
| "yaml_loop (p # ps) w = yaml_loop ps (SavePhotoAsYaml p w)"

definition BatchPhotosPrivate :: "request \<Rightarrow> world \<Rightarrow> response \<times> world" where
  "BatchPhotosPrivate c w =
     (if \<not> Auth c ResourcePhotos ActionPrivate then (AbortUnauthorized, w)
      else case json c of
        None \<Rightarrow> (AbortBadRequest, w)
      | Some f \<Rightarrow>
          if length (Photos f) = 0 then (Abort StatusBadRequest ErrNoItemsSelected, w)
          else (case attempt (Write photos_tbl)
                       (emit (LogInfo ''photos: updating private flag'') w) of
                  (False, w1) \<Rightarrow> (AbortSaveFailed, emit (LogError ''private'') w1)
                | (True, w1) \<Rightarrow>
                    (let w2 = logError ''photos''
                                (UpdatePhotoCounts
                                   (w1\<lparr>photos := map (toggle_private (Photos f)) (photos w1)\<rparr>));
                         w3 = (case PhotoSelection f w2 of
                                 (None, w') \<Rightarrow> w'
                               | (Some ps, w') \<Rightarrow> EntitiesUpdated ''photos'' ps (yaml_loop ps w'))
                     in (JSON StatusOK MsgSelectionProtected,
                         FlushCoverCache (UpdateClientConfig w3)))))"

subsection \<open>Delete labels\<close>

text \<open>
  The model \<^verbatim>\<open>entity.Label\<close> is not among the sources; a label row is kept to its
  identifier and name, and the query for the selected labels sees every row.
\<close>

fun label_loop :: "Label list \<Rightarrow> world \<Rightarrow> world" where
  "label_loop [] w = w"
| "label_loop (l # ls) w = label_loop ls (logError ''labels'' (LabelDelete l w))"

definition BatchLabelsDelete :: "request \<Rightarrow> world \<Rightarrow> response \<times> world" where
  "BatchLabelsDelete c w =
     (if \<not> Auth c ResourceLabels ActionDelete then (AbortUnauthorized, w)
      else case json c of
        None \<Rightarrow> (AbortBadRequest, w)
      | Some f \<Rightarrow>
          if length (Labels f) = 0
          then (Abort StatusBadRequest ErrNoLabelsSelected, emit (LogError ''no labels selected'') w)
          else (case attempt (Read labels_tbl) (emit (LogInfo ''labels: deleting'') w) of
                  (False, w1) \<Rightarrow> (Error StatusInternalServerError ErrDeleteFailed, w1)
                | (True, w1) \<Rightarrow>
                    (JSON StatusOK MsgLabelsDeleted,
                     EntitiesDeleted ''labels'' (Labels f)
                       (UpdateClientConfig
                          (label_loop (filter (\<lambda>l. label_uid l \<in> set (Labels f)) (labels w1)) w1)))))"

subsection \<open>Permanent delete\<close>

fun delete_loop :: "Photo list \<Rightarrow> Photo list \<Rightarrow> world \<Rightarrow> Photo list \<times> world" where
  "delete_loop [] deleted w = (deleted, w)"
| "delete_loop (p # ps) deleted w =
     (case Delete p w of
        (False, w1) \<Rightarrow> delete_loop ps deleted (emit (LogError ''delete'') w1)
      | (True, w1) \<Rightarrow> delete_loop ps (deleted @ [p]) w1)"

definition BatchPhotosDelete :: "config \<Rightarrow> request \<Rightarrow> world \<Rightarrow> response \<times> world" where
  "BatchPhotosDelete conf c w =
     (if \<not> Auth c ResourcePhotos ActionDelete then (AbortUnauthorized, w)
      else if ReadOnly conf \<or> \<not> FeaturesDelete conf then (AbortFeatureDisabled, w)
      else case json c of
        None \<Rightarrow> (AbortBadRequest, w)
      | Some f \<Rightarrow>
          if length (Photos f) = 0 then (Abort StatusBadRequest ErrNoItemsSelected, w)
          else (case PhotoSelection f (emit (LogInfo ''photos: deleting'') w) of
                  (None, w1) \<Rightarrow> (AbortEntityNotFound, w1)
                | (Some ps, w1) \<Rightarrow>
                    (case delete_loop ps [] w1 of
                       (deleted, w2) \<Rightarrow>
                         (JSON StatusOK MsgPermanentlyDeleted,
                          if length deleted > 0
                          then EntitiesDeleted ''photos'' (map photo_uid deleted)
                                 (UpdateClientConfig (logError ''photos'' (UpdatePhotoCounts w2)))
                          else w2))))"

subsection \<open>The routes\<close>

text \<open>
  The seven batch operations, the handler each route runs, the access-control check it
  makes, the identifier list of the selection it requires to be non-empty, and the
  message of its rejection.
\<close>

datatype batch =
    ArchivePhotos | RestorePhotos | ApprovePhotos | DeleteAlbums | PrivatePhotos
  | DeleteLabels | DeletePhotos

fun route :: "batch \<Rightarrow> config \<Rightarrow> request \<Rightarrow> world \<Rightarrow> response \<times> world" where
  "route ArchivePhotos conf c w = BatchPhotosArchive conf c w"
| "route RestorePhotos conf c w = BatchPhotosRestore conf c w"
| "route ApprovePhotos conf c w = BatchPhotosApprove c w"
| "route DeleteAlbums conf c w = BatchAlbumsDelete c w"
| "route PrivatePhotos conf c w = BatchPhotosPrivate c w"
| "route DeleteLabels conf c w = BatchLabelsDelete c w"
| "route DeletePhotos conf c w = BatchPhotosDelete conf c w"

fun permitted :: "batch \<Rightarrow> request \<Rightarrow> bool" where
  "permitted ArchivePhotos c = Auth c ResourcePhotos ActionDelete"
| "permitted RestorePhotos c = Auth c ResourcePhotos ActionDelete"
| "permitted ApprovePhotos c = Auth c ResourcePhotos ActionUpdate"
| "permitted DeleteAlbums c = Auth c ResourceAlbums ActionDelete"
| "permitted PrivatePhotos c = Auth c ResourcePhotos ActionPrivate"
| "permitted DeleteLabels c = Auth c ResourceLabels ActionDelete"
| "permitted DeletePhotos c = Auth c ResourcePhotos ActionDelete"

fun selected :: "batch \<Rightarrow> Selection \<Rightarrow> string list" where
  "selected DeleteAlbums f = Albums f"
| "selected DeleteLabels f = Labels f"
| "selected b f = Photos f"

fun complaint :: "batch \<Rightarrow> message" where
  "complaint DeleteAlbums = ErrNoAlbumsSelected"
| "complaint DeleteLabels = ErrNoLabelsSelected"
| "complaint b = ErrNoItemsSelected"

definition gated :: "batch \<Rightarrow> config \<Rightarrow> bool" where
  "gated b conf = (b = DeletePhotos \<and> (ReadOnly conf \<or> \<not> FeaturesDelete conf))"

text \<open>The identifiers of a selection that name a photo of the store.\<close>

definition matching :: "Selection \<Rightarrow> world \<Rightarrow> string list" where
  "matching f w = filter (\<lambda>u. u \<in> set (map photo_uid (photos w))) (Photos f)"

subsection \<open>Outcomes of a permanent deletion\<close>

text \<open>
  The removals of a deletion run draw their outcomes from the failure oracle in order:
  the photos whose removal succeeds and those whose removal fails, and what the loop over
  the photos adds to the trace (each removal, and an error in the log after a failed
  one).
\<close>

fun removed :: "Photo list \<Rightarrow> bool list \<Rightarrow> Photo list" where
  "removed [] rs = []"
| "removed (p # ps) [] = p # ps"
| "removed (p # ps) (r # rs) = (if r then removed ps rs else p # removed ps rs)"

fun refused :: "Photo list \<Rightarrow> bool list \<Rightarrow> Photo list" where
  "refused [] rs = []"
| "refused (p # ps) [] = []"
| "refused (p # ps) (r # rs) = (if r then p # refused ps rs else refused ps rs)"

fun removal_trace :: "Photo list \<Rightarrow> bool list \<Rightarrow> effect list" where
  "removal_trace [] rs = []"
| "removal_trace (p # ps) [] = Remove (photo_uid p) # removal_trace ps []"
| "removal_trace (p # ps) (r # rs) =
     Remove (photo_uid p) # (if r then LogError ''delete'' # removal_trace ps rs
                             else removal_trace ps rs)"

fun is_remove :: "effect \<Rightarrow> bool" where
  "is_remove (Remove uid) = True"
| "is_remove e = False"

section \<open>Example stores\<close>

text \<open>Concrete stores and records on which the properties below are exercised.\<close>

definition blank_world :: world where
  "blank_world =
     \<lparr>files = [], photos = [], photos_albums = [], albums = [], labels = [], duplicates = [],
      users = [], passwords = [], now = 1000, faults = [], trace = []\<rparr>"

definition blank_file :: File where
  "blank_file =
     \<lparr>file_uid = [], file_photo_uid = [], file_root = [], file_name = [], file_hash = [],
      file_type = ''jpg'', file_width = 0, file_primary = False, file_missing = False,
      file_error = [], file_mod_time = 0, file_deleted_at = None\<rparr>"

definition index_example :: world where
  "index_example =
     blank_world
       \<lparr>duplicates := [\<lparr>dup_file_root = ''A'', dup_file_name = ''b.jpg'', dup_mod_time = 100\<rparr>],
        files := [blank_file\<lparr>file_uid := ''f1'', file_photo_uid := ''p1'', file_root := ''A'',
                             file_name := ''b.jpg'', file_mod_time := 200\<rparr>]\<rparr>"

text \<open>
  A larger store for the snapshot: the ledger names \<open>A/c.jpg\<close> twice and two paths whose
  files are indexed; of the files one is missing and one is soft-deleted.
\<close>

definition ledger_example :: world where
  "ledger_example =
     blank_world
       \<lparr>duplicates :=
          [\<lparr>dup_file_root = ''A'', dup_file_name = ''b.jpg'', dup_mod_time = 100\<rparr>,
           \<lparr>dup_file_root = ''A'', dup_file_name = ''c.jpg'', dup_mod_time = 300\<rparr>,
           \<lparr>dup_file_root = ''A'', dup_file_name = ''c.jpg'', dup_mod_time = 310\<rparr>,
           \<lparr>dup_file_root = ''A'', dup_file_name = ''e.jpg'', dup_mod_time = 500\<rparr>],
        files :=
          [blank_file\<lparr>file_uid := ''f1'', file_photo_uid := ''p1'', file_root := ''A'',
                      file_name := ''b.jpg'', file_mod_time := 200\<rparr>,
           blank_file\<lparr>file_uid := ''f2'', file_photo_uid := ''p1'', file_root := ''A'',
                      file_name := ''d.jpg'', file_mod_time := 400, file_missing := True\<rparr>,
           blank_file\<lparr>file_uid := ''f3'', file_photo_uid := ''p2'', file_root := ''A'',
                      file_name := ''e.jpg'', file_mod_time := 600, file_deleted_at := Some 7\<rparr>,
           blank_file\<lparr>file_uid := ''f4'', file_photo_uid := ''p2'', file_root := ''A'',
                      file_name := ''g.jpg'', file_mod_time := 700\<rparr>]\<rparr>"

definition rename_example :: world where
  "rename_example =
     blank_world
       \<lparr>files := [blank_file\<lparr>file_uid := ''f1'', file_photo_uid := ''p1'', file_root := ''A'',
                             file_name := ''b.jpg'', file_missing := True,
                             file_deleted_at := Some 7\<rparr>,
                  blank_file\<lparr>file_uid := ''f2'', file_photo_uid := ''p1'', file_root := ''A'',
                             file_name := ''c.jpg''\<rparr>]\<rparr>"

definition primary_example :: world where
  "primary_example =
     blank_world
       \<lparr>files :=
          [blank_file\<lparr>file_uid := ''f1'', file_photo_uid := ''p1'', file_width := 100\<rparr>,
           blank_file\<lparr>file_uid := ''f2'', file_photo_uid := ''p1'', file_width := 200,
                       file_primary := True, file_deleted_at := Some 7\<rparr>,
           blank_file\<lparr>file_uid := ''f3'', file_photo_uid := ''p1'', file_width := 150\<rparr>,
           blank_file\<lparr>file_uid := ''f4'', file_photo_uid := ''p1'', file_width := 300,
                       file_type := ''raw'', file_primary := True\<rparr>,
           blank_file\<lparr>file_uid := ''f5'', file_photo_uid := ''p2'', file_width := 400,
                       file_primary := True\<rparr>,
           blank_file\<lparr>file_uid := ''f6'', file_photo_uid := ''p1'', file_width := 500,
                       file_missing := True\<rparr>]\<rparr>"

definition example_IsPPID :: "string \<Rightarrow> char \<Rightarrow> bool" where
  "example_IsPPID s prefix = (length s = 16 \<and> hd s = prefix)"

definition example_pwInvalid :: "Password \<Rightarrow> string \<Rightarrow> bool" where
  "example_pwInvalid pw s = (pw_hash pw \<noteq> s)"

definition alice :: User where
  "alice =
     \<lparr>ID = 7, UserUID = ''u000000000000007'', UserName = ''alice'', FullName = ''Alice'',
      UserDisabled = False, RoleAdmin = False, RoleGuest = False, LoginAttempts = 3,
      LoginAt = None, DeletedAt = None\<rparr>"

definition bob :: User where
  "bob =
     \<lparr>ID = 8, UserUID = ''u000000000000008'', UserName = ''bob'', FullName = ''Bob'',
      UserDisabled = False, RoleAdmin = False, RoleGuest = False, LoginAttempts = 1,
      LoginAt = None, DeletedAt = None\<rparr>"

definition login_example :: world where
  "login_example =
     blank_world
       \<lparr>users := [alice, bob],
        passwords := [\<lparr>pw_uid = ''u000000000000007'', pw_hash = ''secret''\<rparr>]\<rparr>"

definition allow_all :: "resource \<Rightarrow> action \<Rightarrow> bool" where
  "allow_all r a = True"

definition deny_all :: "resource \<Rightarrow> action \<Rightarrow> bool" where
  "deny_all r a = False"

definition nothing_selected :: request where
  "nothing_selected = \<lparr>allow = allow_all, json = Some \<lparr>Photos = [], Albums = [], Labels = []\<rparr>\<rparr>"

definition deletion_off :: config where
  "deletion_off = \<lparr>ReadOnly = False, FeaturesDelete = False, BackupYaml = False\<rparr>"

definition deletion_on :: config where
  "deletion_on = \<lparr>ReadOnly = False, FeaturesDelete = True, BackupYaml = False\<rparr>"

definition blank_photo :: Photo where
  "blank_photo =
     \<lparr>photo_uid = [], photo_path = [], photo_private = False, photo_pending = False,
      photo_deleted_at = None\<rparr>"

definition library_example :: world where
  "library_example =
     blank_world
       \<lparr>photos := [blank_photo\<lparr>photo_uid := ''p1''\<rparr>,
                   blank_photo\<lparr>photo_uid := ''p2'', photo_private := True\<rparr>,
                   blank_photo\<lparr>photo_uid := ''p3'', photo_private := True,
                                photo_deleted_at := Some 7\<rparr>],
        photos_albums := [\<lparr>pa_photo_uid = ''p1'', pa_album_uid = ''a1'', pa_hidden = False\<rparr>,
                          \<lparr>pa_photo_uid = ''p2'', pa_album_uid = ''a1'', pa_hidden = False\<rparr>,
                          \<lparr>pa_photo_uid = ''p3'', pa_album_uid = ''a2'', pa_hidden = True\<rparr>]\<rparr>"

definition selecting :: "string list \<Rightarrow> request" where
  "selecting uids = \<lparr>allow = allow_all, json = Some \<lparr>Photos = uids, Albums = [], Labels = []\<rparr>\<rparr>"

definition backup_on :: config where
  "backup_on = \<lparr>ReadOnly = False, FeaturesDelete = True, BackupYaml = True\<rparr>"

text \<open>
  Three photos are selected for permanent deletion; the selection resolves, the removal
  of the first photo succeeds, that of the second fails, that of the third succeeds.  In
  the second store the selection resolves and the first removal fails.
\<close>

definition removal_example :: world where
  "removal_example =
     blank_world
       \<lparr>photos := [blank_photo\<lparr>photo_uid := ''p1''\<rparr>, blank_photo\<lparr>photo_uid := ''p2''\<rparr>,
                   blank_photo\<lparr>photo_uid := ''p3''\<rparr>],
        faults := [False, False, True, False]\<rparr>"

definition stuck_example :: world where
  "stuck_example =
     blank_world\<lparr>photos := [blank_photo\<lparr>photo_uid := ''p1''\<rparr>], faults := [False, True]\<rparr>"

section \<open>Verified properties\<close>

subsection \<open>Basic facts about the store primitives\<close>

lemma attempt_healthy: "faults w = [] \<Longrightarrow> attempt e w = (True, emit e w)"
  by (simp add: attempt_def)

lemma emit_simps:
  "files (emit e w) = files w" "photos (emit e w) = photos w"
  "photos_albums (emit e w) = photos_albums w" "albums (emit e w) = albums w"
  "labels (emit e w) = labels w" "duplicates (emit e w) = duplicates w"
  "users (emit e w) = users w" "passwords (emit e w) = passwords w"
  "now (emit e w) = now w" "faults (emit e w) = faults w"
  "trace (emit e w) = trace w @ [e]"
  by (simp_all add: emit_def)

subsection \<open>The path snapshot\<close>

lemma latest_Nil: "latest key [] = None"
  by (simp add: latest_def)

lemma latest_snoc:
  "latest key (rows @ [(root, name, t)]) = (if Join root name = key then Some t else latest key rows)"
  by (cases "filter (\<lambda>(root, name, modTime). Join root name = key) rows")
     (simp_all add: latest_def)

lemma put_all_snoc:
  "put_all m (rows @ [(root, name, t)]) = (put_all m rows)(Join root name \<mapsto> t)"
  by (simp add: put_all_def)

lemma put_all_apply:
  "put_all m rows key = (case latest key rows of Some t \<Rightarrow> Some t | None \<Rightarrow> m key)"
proof (induction rows rule: rev_induct)
  case Nil
  show ?case by (simp add: put_all_def latest_Nil)
next
  case (snoc r rows)
  obtain root name t where r: "r = (root, name, t)" by (cases r) auto
  show ?case
    unfolding r put_all_snoc latest_snoc using snoc.IH by simp
qed

lemma latest_map:
  "latest key (map (\<lambda>x. (r x, n x, t x)) xs) =
     (case filter (\<lambda>x. Join (r x) (n x) = key) xs of
        [] \<Rightarrow> None
      | y # ys \<Rightarrow> Some (t (last (y # ys))))"
proof -
  have "filter (\<lambda>(root, name, modTime). Join root name = key) (map (\<lambda>x. (r x, n x, t x)) xs)
          = map (\<lambda>x. (r x, n x, t x)) (filter (\<lambda>x. Join (r x) (n x) = key) xs)"
    by (simp add: filter_map comp_def)
  then show ?thesis
    by (cases "filter (\<lambda>x. Join (r x) (n x) = key) xs") (simp_all add: latest_def last_map)
qed

lemma Join_examples:
  "Join ''A'' ''b.jpg'' = ''A/b.jpg''" "Join ''A'' ''c.jpg'' = ''A/c.jpg''"
  "Join ''A'' ''d.jpg'' = ''A/d.jpg''" "Join ''A'' ''e.jpg'' = ''A/e.jpg''"
  "Join ''A'' ''g.jpg'' = ''A/g.jpg''"
  by code_simp+

text \<open>
  Claim C4.  When the store answers both queries, \<^verbatim>\<open>IndexedFiles\<close> returns no error and a
  map that holds, for every key, the modification time of the last row of the files
  table that is not missing, is not soft-deleted and whose joined root and name is the
  key; where the files table has no such row, the modification time of the last row of
  the duplicate ledger whose joined root and name is the key; and no entry where neither
  table has one.  So every ledger row and every file row that is neither missing nor
  soft-deleted is taken, and a file row overwrites a ledger row with the same key.  The
  store is only read: once for the ledger, then once for the files.
\<close>

theorem IndexedFiles_snapshot:
  "faults w = [] \<Longrightarrow>
     snd (fst (IndexedFiles w)) = None
     \<and> fst (fst (IndexedFiles w)) key =
         (case filter (\<lambda>f. \<not> file_missing f \<and> file_deleted_at f = None
                            \<and> Join (file_root f) (file_name f) = key) (files w) of
            f # fs \<Rightarrow> Some (file_mod_time (last (f # fs)))
          | [] \<Rightarrow>
              (case filter (\<lambda>d. Join (dup_file_root d) (dup_file_name d) = key) (duplicates w) of
                 d # ds \<Rightarrow> Some (dup_mod_time (last (d # ds)))
               | [] \<Rightarrow> None))
     \<and> snd (IndexedFiles w) = w\<lparr>trace := trace w @ [Read duplicates_tbl, Read files_tbl]\<rparr>"
proof -
  assume h: "faults w = []"
  let ?live = "\<lambda>f. \<not> file_missing f \<and> file_deleted_at f = None"
  have run: "IndexedFiles w =
               ((put_all (put_all Map.empty (duplicate_rows w)) (indexed_rows w), None),
                w\<lparr>trace := trace w @ [Read duplicates_tbl, Read files_tbl]\<rparr>)"
    using h
    by (simp add: IndexedFiles_def attempt_healthy emit_simps duplicate_rows_def
          indexed_rows_def Let_def emit_def)
  have fs: "latest key (indexed_rows w) =
              (case filter (\<lambda>f. ?live f \<and> Join (file_root f) (file_name f) = key) (files w) of
                 [] \<Rightarrow> None
               | f # fs \<Rightarrow> Some (file_mod_time (last (f # fs))))"
    unfolding indexed_rows_def latest_map by (simp add: conj_commute conj_left_commute)
  have ds: "latest key (duplicate_rows w) =
              (case filter (\<lambda>d. Join (dup_file_root d) (dup_file_name d) = key) (duplicates w) of
                 [] \<Rightarrow> None
               | d # ds \<Rightarrow> Some (dup_mod_time (last (d # ds))))"
    unfolding duplicate_rows_def by (rule latest_map)
  have "fst (fst (IndexedFiles w)) key =
          (case latest key (indexed_rows w) of
             Some t \<Rightarrow> Some t
           | None \<Rightarrow> latest key (duplicate_rows w))"
    by (simp add: run put_all_apply split: option.splits)
  then have v: "fst (fst (IndexedFiles w)) key =
         (case filter (\<lambda>f. ?live f \<and> Join (file_root f) (file_name f) = key) (files w) of
            f # fs \<Rightarrow> Some (file_mod_time (last (f # fs)))
          | [] \<Rightarrow>
              (case filter (\<lambda>d. Join (dup_file_root d) (dup_file_name d) = key) (duplicates w) of
                 d # ds \<Rightarrow> Some (dup_mod_time (last (d # ds)))
               | [] \<Rightarrow> None))"
    unfolding fs ds by (simp split: list.splits)
  show ?thesis
    using v by (simp add: run)
qed

text \<open>
  The example of the claim: the ledger holds root \<open>A\<close>, name \<open>b.jpg\<close> with modification
  time 100, and an indexed file at the same path has modification time 200.  The snapshot
  has exactly one entry, for \<open>A/b.jpg\<close>, with value 200.  In the larger store the snapshot
  takes \<open>A/b.jpg\<close> from the file (200), \<open>A/c.jpg\<close> from the later of its two ledger rows
  (310), \<open>A/e.jpg\<close> from the ledger (500) because its file is soft-deleted, and \<open>A/g.jpg\<close>
  from the file (700); the missing file \<open>A/d.jpg\<close> has no entry.
\<close>

theorem IndexedFiles_snapshot_witness:
  "faults index_example = []
   \<and> snd (fst (IndexedFiles index_example)) = None
   \<and> fst (fst (IndexedFiles index_example)) ''A/b.jpg'' = Some 200
   \<and> dom (fst (fst (IndexedFiles index_example))) = {''A/b.jpg''}
   \<and> faults ledger_example = []
   \<and> fst (fst (IndexedFiles ledger_example)) ''A/b.jpg'' = Some 200
   \<and> fst (fst (IndexedFiles ledger_example)) ''A/c.jpg'' = Some 310
   \<and> fst (fst (IndexedFiles ledger_example)) ''A/d.jpg'' = None
   \<and> fst (fst (IndexedFiles ledger_example)) ''A/e.jpg'' = Some 500
   \<and> fst (fst (IndexedFiles ledger_example)) ''A/g.jpg'' = Some 700
   \<and> dom (fst (fst (IndexedFiles ledger_example)))
       = {''A/b.jpg'', ''A/c.jpg'', ''A/e.jpg'', ''A/g.jpg''}"
proof -
  have h: "faults index_example = []" and h': "faults ledger_example = []"
    by (simp_all add: index_example_def ledger_example_def blank_world_def)
  have v: "fst (fst (IndexedFiles index_example)) key =
             (if key = ''A/b.jpg'' then Some 200 else None)" for key
    using IndexedFiles_snapshot [OF h, of key]
    by (simp add: index_example_def blank_world_def blank_file_def Join_examples)
  have v': "fst (fst (IndexedFiles ledger_example)) key =
             (if key = ''A/b.jpg'' then Some 200
              else if key = ''A/g.jpg'' then Some 700
              else if key = ''A/c.jpg'' then Some 310
              else if key = ''A/e.jpg'' then Some 500
              else None)" for key
    using IndexedFiles_snapshot [OF h', of key]
    by (simp add: ledger_example_def blank_world_def blank_file_def Join_examples)
  have "snd (fst (IndexedFiles index_example)) = None"
    using IndexedFiles_snapshot [OF h] by simp
  moreover have "dom (fst (fst (IndexedFiles index_example))) = {''A/b.jpg''}"
    by (auto simp: dom_def v)
  moreover have "dom (fst (fst (IndexedFiles ledger_example)))
                   = {''A/b.jpg'', ''A/c.jpg'', ''A/e.jpg'', ''A/g.jpg''}"
    by (auto simp: dom_def v' split: if_splits)
  ultimately show ?thesis
    using h h' by (simp add: v v')
qed

subsection \<open>Renaming a file\<close>

text \<open>
  Claim C9.  If one of the four arguments of \<^verbatim>\<open>RenameFile\<close> is empty, it returns an error
  and leaves the world as it was: no statement is sent to the store.  If all four are
  non-empty and the store executes the statement, it returns no error, every file row
  with the source root and name gets the destination root and name, is no longer missing
  and no longer soft-deleted, every other file row and every other table is as before,
  and the one statement sent is a write to the files.
\<close>

theorem RenameFile_resurrects:
  "(srcRoot = [] \<or> srcName = [] \<or> destRoot = [] \<or> destName = [] \<longrightarrow>
      fst (RenameFile srcRoot srcName destRoot destName w) = Some (Errorf ''can't rename'')
      \<and> snd (RenameFile srcRoot srcName destRoot destName w) = w)
   \<and> (srcRoot \<noteq> [] \<and> srcName \<noteq> [] \<and> destRoot \<noteq> [] \<and> destName \<noteq> [] \<and> faults w = [] \<longrightarrow>
      fst (RenameFile srcRoot srcName destRoot destName w) = None
      \<and> length (files (snd (RenameFile srcRoot srcName destRoot destName w))) = length (files w)
      \<and> (\<forall>i < length (files w).
            files (snd (RenameFile srcRoot srcName destRoot destName w)) ! i =
              (if file_root (files w ! i) = srcRoot \<and> file_name (files w ! i) = srcName
               then (files w ! i)\<lparr>file_root := destRoot, file_name := destName,
                                   file_missing := False, file_deleted_at := None\<rparr>
               else files w ! i))
      \<and> (snd (RenameFile srcRoot srcName destRoot destName w))\<lparr>files := files w\<rparr>
            = w\<lparr>trace := trace w @ [Write files_tbl]\<rparr>)"
  by (simp add: RenameFile_def attempt_healthy emit_def rename_row_def)

theorem RenameFile_resurrects_witness:
  "fst (RenameFile ''A'' ''b.jpg'' ''B'' ''d.jpg'' rename_example) = None
   \<and> map file_root (files (snd (RenameFile ''A'' ''b.jpg'' ''B'' ''d.jpg'' rename_example)))
       = [''B'', ''A'']
   \<and> map file_name (files (snd (RenameFile ''A'' ''b.jpg'' ''B'' ''d.jpg'' rename_example)))
       = [''d.jpg'', ''c.jpg'']
   \<and> map file_missing (files (snd (RenameFile ''A'' ''b.jpg'' ''B'' ''d.jpg'' rename_example)))
       = [False, False]
   \<and> map file_deleted_at (files (snd (RenameFile ''A'' ''b.jpg'' ''B'' ''d.jpg'' rename_example)))
       = [None, None]
   \<and> fst (RenameFile ''A'' [] ''B'' ''d.jpg'' rename_example) = Some (Errorf ''can't rename'')
   \<and> snd (RenameFile ''A'' [] ''B'' ''d.jpg'' rename_example) = rename_example"
  using RenameFile_resurrects [of "''A''" "''b.jpg''" "''B''" "''d.jpg''" rename_example]
    RenameFile_resurrects [of "''A''" "[]" "''B''" "''d.jpg''" rename_example]
  by (simp add: RenameFile_def attempt_def emit_def rename_row_def rename_example_def
        blank_world_def blank_file_def)

subsection \<open>The primary file of a photo\<close>

lemma update_primary_healthy:
  "faults w = [] \<Longrightarrow>
     update_primary photoUID fileUID w =
       (None, w\<lparr>files := map (set_chosen photoUID fileUID)
                            (map (clear_others photoUID fileUID) (files w)),
                 trace := trace w @ [Write files_tbl, Write files_tbl]\<rparr>)"
  by (simp add: update_primary_def attempt_healthy emit_def)

lemma set_chosen_clear_others:
  "set_chosen photoUID fileUID (clear_others photoUID fileUID f) =
     (if file_scoped f \<and> file_photo_uid f = photoUID
      then f\<lparr>file_primary := (file_uid f = fileUID)\<rparr> else f)"
  by (simp add: set_chosen_def clear_others_def file_scoped_def)

lemma filter_distinct_key:
  "distinct (map k xs) \<Longrightarrow> c \<in> set xs \<Longrightarrow> filter (\<lambda>x. k x = k c) xs = [c]"
proof (induction xs)
  case Nil
  then show ?case by simp
next
  case (Cons x xs)
  show ?case
  proof (cases "x = c")
    case True
    with Cons.prems have "k c \<notin> k ` set xs" by simp
    then have "\<forall>y \<in> set xs. k y \<noteq> k c" by (metis imageI)
    then have "filter (\<lambda>x. k x = k c) xs = []" by (simp add: filter_empty_conv)
    with True show ?thesis by simp
  next
    case False
    with Cons.prems have "c \<in> set xs" and "k x \<noteq> k c" and "distinct (map k xs)"
      by auto
    with Cons.IH show ?thesis by simp
  qed
qed

lemma widest_first:
  assumes "cs \<noteq> []"
  shows "\<exists>c rest. by_width_desc cs = c # rest \<and> c \<in> set cs
           \<and> (\<forall>f \<in> set cs. file_width f \<le> file_width c)"
proof -
  let ?s = "by_width_desc cs"
  from assms have "?s \<noteq> []"
    unfolding by_width_desc_def by (metis length_sort length_0_conv)
  then obtain c rest where s: "?s = c # rest"
    by (cases ?s) auto
  have "sorted (map (\<lambda>f. - file_width f) ?s)"
    unfolding by_width_desc_def by (rule sorted_sort_key)
  with s have "\<forall>f \<in> set rest. - file_width c \<le> - file_width f"
    by simp
  moreover have "set cs = insert c (set rest)"
    using s unfolding by_width_desc_def by (metis set_sort list.simps(15))
  ultimately have "c \<in> set cs" and "\<forall>f \<in> set cs. file_width f \<le> file_width c"
    by auto
  with s show ?thesis by blast
qed

lemma filter_assign:
  "filter (\<lambda>f. file_scoped f \<and> file_photo_uid f = photoUID)
      (map (\<lambda>f. if file_scoped f \<and> file_photo_uid f = photoUID
                 then f\<lparr>file_primary := (file_uid f = u)\<rparr> else f) fs)
   = map (\<lambda>f. f\<lparr>file_primary := (file_uid f = u)\<rparr>)
       (filter (\<lambda>f. file_scoped f \<and> file_photo_uid f = photoUID) fs)"
  by (induction fs) (auto simp: file_scoped_def)

lemma photo_files_assign:
  "photo_files photoUID
      (w\<lparr>files := map (\<lambda>f. if file_scoped f \<and> file_photo_uid f = photoUID
                           then f\<lparr>file_primary := (file_uid f = u)\<rparr> else f) (files w),
         trace := t\<rparr>)
   = map (\<lambda>f. f\<lparr>file_primary := (file_uid f = u)\<rparr>) (photo_files photoUID w)"
  by (simp add: photo_files_def filter_assign)

lemma no_candidate_fails:
  assumes "photoUID \<noteq> []" and "primary_candidates photoUID w = []"
  shows "fst (SetPhotoPrimary photoUID [] w) \<noteq> None
         \<and> (snd (SetPhotoPrimary photoUID [] w))\<lparr>trace := trace w, faults := faults w\<rparr> = w"
proof (cases "faults w")
  case Nil
  with assms show ?thesis
    by (simp add: SetPhotoPrimary_def attempt_def emit_def pluck_widest_def
          by_width_desc_def primary_candidates_def)
next
  case (Cons b bs)
  with assms show ?thesis
    by (cases b)
       (simp_all add: SetPhotoPrimary_def attempt_def emit_def pluck_widest_def
          by_width_desc_def primary_candidates_def)
qed

text \<open>
  Claim C1, as the code has it.  Statements on the default handle see only the files that
  are not soft-deleted, so the claim holds of those.  Take a photo with a non-empty
  identifier whose visible files have distinct, non-empty identifiers, and call
  \<^verbatim>\<open>SetPhotoPrimary\<close> without a file identifier.

  \<^item> If the store executes the statements and the photo has a visible file that is not
    missing and is a JPEG, the call succeeds and there is such a file \<open>c\<close>, at least as
    wide as every other one, such that afterwards each visible file of the photo has the
    primary flag exactly if it is \<open>c\<close>: the flag is cleared on every other visible file,
    set on \<open>c\<close>, and exactly one visible file of the photo carries it.  Nothing else
    changes.
  \<^item> If the photo has no visible file that is not missing and is a JPEG, the call
    returns an error and no row of any table changes.
\<close>

theorem SetPhotoPrimary_widest:
  assumes "photoUID \<noteq> []"
      and "\<forall>f \<in> set (photo_files photoUID w). file_uid f \<noteq> []"
      and "distinct (map file_uid (photo_files photoUID w))"
  shows "(faults w = [] \<and> primary_candidates photoUID w \<noteq> [] \<longrightarrow>
            (\<exists>c \<in> set (primary_candidates photoUID w).
                (\<forall>f \<in> set (primary_candidates photoUID w). file_width f \<le> file_width c)
              \<and> fst (SetPhotoPrimary photoUID [] w) = None
              \<and> files (snd (SetPhotoPrimary photoUID [] w)) =
                  map (\<lambda>f. if file_scoped f \<and> file_photo_uid f = photoUID
                            then f\<lparr>file_primary := (file_uid f = file_uid c)\<rparr> else f) (files w)
              \<and> filter file_primary (photo_files photoUID (snd (SetPhotoPrimary photoUID [] w)))
                  = [c\<lparr>file_primary := True\<rparr>]
              \<and> (snd (SetPhotoPrimary photoUID [] w))\<lparr>files := files w, trace := trace w\<rparr> = w))
       \<and> (primary_candidates photoUID w = [] \<longrightarrow>
            fst (SetPhotoPrimary photoUID [] w) \<noteq> None
            \<and> (snd (SetPhotoPrimary photoUID [] w))\<lparr>trace := trace w, faults := faults w\<rparr> = w)"
proof (intro conjI impI)
  assume "primary_candidates photoUID w = []"
  with assms(1) show "fst (SetPhotoPrimary photoUID [] w) \<noteq> None"
    and "(snd (SetPhotoPrimary photoUID [] w))\<lparr>trace := trace w, faults := faults w\<rparr> = w"
    using no_candidate_fails by blast+
next
  assume a: "faults w = [] \<and> primary_candidates photoUID w \<noteq> []"
  let ?cs = "primary_candidates photoUID w"
  let ?w1 = "emit (Read files_tbl) w"
  from a obtain c rest where s: "by_width_desc ?cs = c # rest"
    and c: "c \<in> set ?cs" and widest: "\<forall>f \<in> set ?cs. file_width f \<le> file_width c"
    using widest_first [of ?cs] by blast
  have sub: "set ?cs \<subseteq> set (photo_files photoUID w)"
    by (auto simp: primary_candidates_def photo_files_def)
  with c have c_in: "c \<in> set (photo_files photoUID w)" by blast
  with assms(2) have uid: "file_uid c \<noteq> []" by blast
  have cand1: "primary_candidates photoUID ?w1 = ?cs"
    by (simp add: primary_candidates_def emit_simps)
  have pluck: "pluck_widest photoUID ?w1 = [file_uid c]"
    by (simp add: pluck_widest_def cand1 s)
  have h1: "faults ?w1 = []"
    using a by (simp add: emit_simps)
  let ?g = "\<lambda>f. if file_scoped f \<and> file_photo_uid f = photoUID
                 then f\<lparr>file_primary := (file_uid f = file_uid c)\<rparr> else f"
  have run: "SetPhotoPrimary photoUID [] w =
               (None, w\<lparr>files := map ?g (files w),
                        trace := trace w @ [Read files_tbl, Write files_tbl, Write files_tbl]\<rparr>)"
  proof -
    have "SetPhotoPrimary photoUID [] w = update_primary photoUID (file_uid c) ?w1"
      using a assms(1) uid by (simp add: SetPhotoPrimary_def attempt_healthy pluck)
    also have "\<dots> = (None, ?w1\<lparr>files := map (set_chosen photoUID (file_uid c))
                                          (map (clear_others photoUID (file_uid c)) (files ?w1)),
                               trace := trace ?w1 @ [Write files_tbl, Write files_tbl]\<rparr>)"
      by (rule update_primary_healthy [OF h1])
    also have "\<dots> = (None, w\<lparr>files := map ?g (files w),
                        trace := trace w @ [Read files_tbl, Write files_tbl, Write files_tbl]\<rparr>)"
      by (simp add: set_chosen_clear_others comp_def emit_def)
    finally show ?thesis .
  qed
  have "filter file_primary (photo_files photoUID (snd (SetPhotoPrimary photoUID [] w)))
          = map (\<lambda>f. f\<lparr>file_primary := (file_uid f = file_uid c)\<rparr>)
              (filter (\<lambda>f. file_uid f = file_uid c) (photo_files photoUID w))"
    by (simp add: run photo_files_assign filter_map comp_def)
  also have "filter (\<lambda>f. file_uid f = file_uid c) (photo_files photoUID w) = [c]"
    using assms(3) c_in by (rule filter_distinct_key)
  finally have one: "filter file_primary (photo_files photoUID (snd (SetPhotoPrimary photoUID [] w)))
          = [c\<lparr>file_primary := True\<rparr>]"
    by simp
  show "\<exists>c \<in> set ?cs.
          (\<forall>f \<in> set ?cs. file_width f \<le> file_width c)
        \<and> fst (SetPhotoPrimary photoUID [] w) = None
        \<and> files (snd (SetPhotoPrimary photoUID [] w)) =
            map (\<lambda>f. if file_scoped f \<and> file_photo_uid f = photoUID
                      then f\<lparr>file_primary := (file_uid f = file_uid c)\<rparr> else f) (files w)
        \<and> filter file_primary (photo_files photoUID (snd (SetPhotoPrimary photoUID [] w)))
            = [c\<lparr>file_primary := True\<rparr>]
        \<and> (snd (SetPhotoPrimary photoUID [] w))\<lparr>files := files w, trace := trace w\<rparr> = w"
    using c widest one by (intro bexI [of _ c]) (simp_all add: run)
qed

lemma primary_example_run:
  "SetPhotoPrimary ''p1'' [] primary_example =
     (None, primary_example
        \<lparr>files :=
           [blank_file\<lparr>file_uid := ''f1'', file_photo_uid := ''p1'', file_width := 100\<rparr>,
            blank_file\<lparr>file_uid := ''f2'', file_photo_uid := ''p1'', file_width := 200,
                        file_primary := True, file_deleted_at := Some 7\<rparr>,
            blank_file\<lparr>file_uid := ''f3'', file_photo_uid := ''p1'', file_width := 150,
                        file_primary := True\<rparr>,
            blank_file\<lparr>file_uid := ''f4'', file_photo_uid := ''p1'', file_width := 300,
                        file_type := ''raw''\<rparr>,
            blank_file\<lparr>file_uid := ''f5'', file_photo_uid := ''p2'', file_width := 400,
                        file_primary := True\<rparr>,
            blank_file\<lparr>file_uid := ''f6'', file_photo_uid := ''p1'', file_width := 500,
                        file_missing := True\<rparr>],
         trace := [Read files_tbl, Write files_tbl, Write files_tbl]\<rparr>)"
  by (simp add: SetPhotoPrimary_def attempt_def emit_def pluck_widest_def by_width_desc_def
        primary_candidates_def file_scoped_def update_primary_def clear_others_def
        set_chosen_def primary_example_def blank_world_def blank_file_def)

theorem SetPhotoPrimary_widest_witness:
  "map file_uid (photo_files ''p1'' primary_example) = [''f1'', ''f3'', ''f4'', ''f6'']
   \<and> map file_width (primary_candidates ''p1'' primary_example) = [100, 150]
   \<and> fst (SetPhotoPrimary ''p1'' [] primary_example) = None
   \<and> map file_uid (filter file_primary
         (photo_files ''p1'' (snd (SetPhotoPrimary ''p1'' [] primary_example)))) = [''f3'']
   \<and> primary_candidates ''p2'' (primary_example\<lparr>files := []\<rparr>) = []
   \<and> fst (SetPhotoPrimary ''p2'' [] (primary_example\<lparr>files := []\<rparr>)) \<noteq> None
   \<and> files (snd (SetPhotoPrimary ''p2'' [] (primary_example\<lparr>files := []\<rparr>))) = []"
proof -
  let ?w = primary_example
  let ?w' = "snd (SetPhotoPrimary ''p1'' [] ?w)"
  let ?e = "primary_example\<lparr>files := []\<rparr>"
  have pf: "map file_uid (photo_files ''p1'' ?w) = [''f1'', ''f3'', ''f4'', ''f6'']"
    by (simp add: photo_files_def file_scoped_def primary_example_def blank_world_def
          blank_file_def)
  have cs: "primary_candidates ''p1'' ?w =
              [blank_file\<lparr>file_uid := ''f1'', file_photo_uid := ''p1'', file_width := 100\<rparr>,
               blank_file\<lparr>file_uid := ''f3'', file_photo_uid := ''p1'', file_width := 150\<rparr>]"
    by (simp add: primary_candidates_def file_scoped_def primary_example_def blank_world_def
          blank_file_def)
  have h: "faults ?w = []"
    by (simp add: primary_example_def blank_world_def)
  have "\<forall>u \<in> set (map file_uid (photo_files ''p1'' ?w)). u \<noteq> []"
    by (simp add: pf)
  then have h2: "\<forall>f \<in> set (photo_files ''p1'' ?w). file_uid f \<noteq> []"
    by simp
  have h3: "distinct (map file_uid (photo_files ''p1'' ?w))"
    by (simp add: pf)
  have ne: "faults ?w = [] \<and> primary_candidates ''p1'' ?w \<noteq> []"
    using h by (simp add: cs)
  have p: "''p1'' \<noteq> []"
    by simp
  note T = SetPhotoPrimary_widest [of "''p1''" ?w, OF p h2 h3, THEN conjunct1, rule_format]
  from T [OF ne]
  obtain c where c: "c \<in> set (primary_candidates ''p1'' ?w)"
      and w: "\<forall>f \<in> set (primary_candidates ''p1'' ?w). file_width f \<le> file_width c"
      and r: "fst (SetPhotoPrimary ''p1'' [] ?w) = None"
      and one: "filter file_primary (photo_files ''p1'' ?w') = [c\<lparr>file_primary := True\<rparr>]"
    by blast
  from c w have "file_uid c = ''f3''"
    by (auto simp: cs blank_file_def)
  with one have p1: "map file_uid (filter file_primary (photo_files ''p1'' ?w')) = [''f3'']"
    by simp
  have e: "primary_candidates ''p2'' ?e = []" and pe: "photo_files ''p2'' ?e = []"
    by (simp_all add: primary_candidates_def photo_files_def)
  from SetPhotoPrimary_widest [of "''p2''" ?e] e pe
  have n: "fst (SetPhotoPrimary ''p2'' [] ?e) \<noteq> None"
    and same: "(snd (SetPhotoPrimary ''p2'' [] ?e))\<lparr>trace := trace ?e, faults := faults ?e\<rparr> = ?e"
    by simp_all
  from same have "files ((snd (SetPhotoPrimary ''p2'' [] ?e))\<lparr>trace := trace ?e, faults := faults ?e\<rparr>)
                    = files ?e"
    by (rule arg_cong)
  then have f: "files (snd (SetPhotoPrimary ''p2'' [] ?e)) = []"
    by simp
  show ?thesis
    using pf r p1 e n f by (simp add: cs blank_file_def)
qed

text \<open>
  The claim as it is worded, over all files of the photo, fails where a file is
  soft-deleted.  In the example the widest JPEG of photo \<open>p1\<close> that is not missing is
  \<open>f2\<close> (width 200), which is soft-deleted and carries the primary flag.  The call picks
  \<open>f3\<close> (width 150) and leaves \<open>f2\<close> untouched, so two files of the photo carry the flag
  afterwards.
\<close>

theorem SetPhotoPrimary_soft_deleted_counterexample:
  "map file_uid (take 1 (by_width_desc (spec_candidates ''p1'' primary_example))) = [''f2'']
   \<and> fst (SetPhotoPrimary ''p1'' [] primary_example) = None
   \<and> map file_uid (primaries ''p1'' (snd (SetPhotoPrimary ''p1'' [] primary_example)))
       = [''f2'', ''f3'']
   \<and> length (primaries ''p1'' (snd (SetPhotoPrimary ''p1'' [] primary_example))) \<noteq> 1"
  by (simp add: primary_example_run primaries_def)
     (simp add: spec_candidates_def by_width_desc_def primary_example_def blank_world_def
        blank_file_def)

subsection \<open>The credential check\<close>

lemma FindPassword_trace:
  "trace (snd (FindPassword uid w)) = trace w @ [Read passwords_tbl]"
  by (cases "faults w"; cases "hd (faults w)")
     (simp_all add: FindPassword_def attempt_def emit_def)

lemma FindPassword_tables:
  "(snd (FindPassword uid w))\<lparr>trace := t, faults := fs\<rparr> = w\<lparr>trace := t, faults := fs\<rparr>"
  by (cases "faults w"; cases "hd (faults w)")
     (simp_all add: FindPassword_def attempt_def emit_def)

lemma FindPassword_missing:
  "find (\<lambda>p. pw_uid p = uid) (passwords w) = None \<Longrightarrow> fst (FindPassword uid w) = None"
  by (cases "faults w"; cases "hd (faults w)")
     (simp_all add: FindPassword_def attempt_def emit_def)

lemma FindPassword_healthy:
  "faults w = [] \<Longrightarrow>
     FindPassword uid w =
       (find (\<lambda>p. pw_uid p = uid) (passwords w), emit (Read passwords_tbl) w)"
  by (simp add: FindPassword_def attempt_healthy emit_simps)

text \<open>
  Claim C10.  For a user that is not registered, and for an empty password, the
  credential check returns true, leaves the user record and every table as they were,
  and adds neither a sleep nor a statement to the trace: no delay is applied and the
  password store is not read.  For a registered user and a non-empty password with no
  password record, it returns true after the delay and the one read of the password
  store, and the users table, with its counters, is as before.
\<close>

theorem InvalidPassword_early_return:
  "(\<not> Registered IsPPID m \<or> password = [] \<longrightarrow>
      fst (InvalidPassword IsPPID pwInvalid m password w) = (True, m)
      \<and> (snd (InvalidPassword IsPPID pwInvalid m password w))\<lparr>trace := trace w\<rparr> = w
      \<and> filter (\<lambda>e. is_sleep e \<or> is_stmt e)
            (news w (snd (InvalidPassword IsPPID pwInvalid m password w))) = [])
   \<and> (Registered IsPPID m \<and> password \<noteq> []
        \<and> find (\<lambda>p. pw_uid p = UserUID m) (passwords w) = None \<longrightarrow>
      fst (InvalidPassword IsPPID pwInvalid m password w) = (True, m)
      \<and> users (snd (InvalidPassword IsPPID pwInvalid m password w)) = users w
      \<and> news w (snd (InvalidPassword IsPPID pwInvalid m password w))
          = [Sleep (throttle m), Read passwords_tbl])"
proof (intro conjI impI)
  assume a: "\<not> Registered IsPPID m \<or> password = []"
  then show "fst (InvalidPassword IsPPID pwInvalid m password w) = (True, m)"
    and "(snd (InvalidPassword IsPPID pwInvalid m password w))\<lparr>trace := trace w\<rparr> = w"
    and "filter (\<lambda>e. is_sleep e \<or> is_stmt e)
            (news w (snd (InvalidPassword IsPPID pwInvalid m password w))) = []"
    by (auto simp: InvalidPassword_def emit_def news_def)
next
  assume a: "Registered IsPPID m \<and> password \<noteq> []
              \<and> find (\<lambda>p. pw_uid p = UserUID m) (passwords w) = None"
  let ?w1 = "emit (Sleep (throttle m)) w"
  from a have none: "fst (FindPassword (UserUID m) ?w1) = None"
    by (intro FindPassword_missing) (simp add: emit_simps)
  then have run: "InvalidPassword IsPPID pwInvalid m password w
                    = ((True, m), snd (FindPassword (UserUID m) ?w1))"
    using a by (cases "FindPassword (UserUID m) ?w1") (simp add: InvalidPassword_def)
  show "fst (InvalidPassword IsPPID pwInvalid m password w) = (True, m)"
    by (simp add: run)
  have "users ((snd (FindPassword (UserUID m) ?w1))\<lparr>trace := [], faults := []\<rparr>)
          = users (?w1\<lparr>trace := [], faults := []\<rparr>)"
    by (simp only: FindPassword_tables)
  then show "users (snd (InvalidPassword IsPPID pwInvalid m password w)) = users w"
    by (simp add: run emit_simps)
  show "news w (snd (InvalidPassword IsPPID pwInvalid m password w))
          = [Sleep (throttle m), Read passwords_tbl]"
    by (simp add: run FindPassword_trace emit_simps news_def)
qed

theorem InvalidPassword_early_return_witness:
  "\<not> Registered example_IsPPID (alice\<lparr>UserName := []\<rparr>)
   \<and> InvalidPassword example_IsPPID example_pwInvalid (alice\<lparr>UserName := []\<rparr>) ''secret''
         login_example
       = ((True, alice\<lparr>UserName := []\<rparr>),
          login_example\<lparr>trace := [LogWarn ''only registered users can change their password'']\<rparr>)
   \<and> Registered example_IsPPID alice
   \<and> InvalidPassword example_IsPPID example_pwInvalid alice [] login_example
       = ((True, alice), login_example)
   \<and> Registered example_IsPPID bob
   \<and> find (\<lambda>p. pw_uid p = UserUID bob) (passwords login_example) = None
   \<and> fst (InvalidPassword example_IsPPID example_pwInvalid bob ''secret'' login_example)
       = (True, bob)
   \<and> users (snd (InvalidPassword example_IsPPID example_pwInvalid bob ''secret'' login_example))
       = [alice, bob]
   \<and> trace (snd (InvalidPassword example_IsPPID example_pwInvalid bob ''secret'' login_example))
       = [Sleep 5000000000, Read passwords_tbl]"
proof -
  have r: "Registered example_IsPPID alice" "Registered example_IsPPID bob"
      "\<not> Registered example_IsPPID (alice\<lparr>UserName := []\<rparr>)"
    by (simp_all add: Registered_def example_IsPPID_def alice_def bob_def)
  have f: "find (\<lambda>p. pw_uid p = UserUID bob) (passwords login_example) = None"
    by (simp add: login_example_def blank_world_def bob_def)
  have t: "trace login_example = []" "users login_example = [alice, bob]"
    by (simp_all add: login_example_def blank_world_def)
  have th: "throttle bob = 5000000000"
    by (simp add: throttle_def bob_def)
  note A = InvalidPassword_early_return [of example_IsPPID "alice\<lparr>UserName := []\<rparr>" "''secret''"
             example_pwInvalid login_example, THEN conjunct1, rule_format]
  note B = InvalidPassword_early_return [of example_IsPPID alice "[]"
             example_pwInvalid login_example, THEN conjunct1, rule_format]
  note C = InvalidPassword_early_return [of example_IsPPID bob "''secret''"
             example_pwInvalid login_example, THEN conjunct2, rule_format]
  have a: "InvalidPassword example_IsPPID example_pwInvalid (alice\<lparr>UserName := []\<rparr>) ''secret''
             login_example
           = ((True, alice\<lparr>UserName := []\<rparr>),
              login_example\<lparr>trace := [LogWarn ''only registered users can change their password'']\<rparr>)"
    using A r by (simp add: InvalidPassword_def emit_def t)
  have b: "InvalidPassword example_IsPPID example_pwInvalid alice [] login_example
             = ((True, alice), login_example)"
    using B r by (simp add: InvalidPassword_def)
  have c: "fst (InvalidPassword example_IsPPID example_pwInvalid bob ''secret'' login_example)
             = (True, bob)"
      "users (snd (InvalidPassword example_IsPPID example_pwInvalid bob ''secret'' login_example))
         = [alice, bob]"
      "trace (snd (InvalidPassword example_IsPPID example_pwInvalid bob ''secret'' login_example))
         = [Sleep 5000000000, Read passwords_tbl]"
    using C r f by (simp_all add: t th news_def)
  show ?thesis
    using r f a b c by simp
qed

lemma throttle_pause:
  assumes "0 \<le> sint (LoginAttempts m)" and "sint (LoginAttempts m) \<le> 1844674407"
  shows "pause (throttle m) = 5000000000 * sint (LoginAttempts m)"
proof -
  let ?a = "sint (LoginAttempts m)"
  have five: "sint (1000000000 * 5 :: 64 word) = 5000000000"
    by simp
  have "sint (throttle m) = signed_take_bit 63 (5000000000 * ?a)"
    unfolding throttle_def by (subst sint_word_mult) (simp only: five, simp)
  also have "\<dots> = 5000000000 * ?a"
    using assms by (intro signed_take_bit_int_eq_self) simp_all
  finally have "sint (throttle m) = 5000000000 * ?a" .
  with assms(1) show ?thesis
    by (simp add: pause_def)
qed

text \<open>
  Claim C8, as the code has it.  For a registered user, a non-empty password and a store
  that executes its statements, the credential check first asks for a sleep of
  \<open>throttle m\<close> and only then reads the password record.  As long as five seconds times
  the failed-attempt count of the user record fits a duration (a count from 0 to
  1844674407) the time waited is exactly that product in nanoseconds, so none for a
  count of zero.  When the password record is found, a failed comparison returns true and
  adds one to the counter of the row the user record addresses; a successful one
  returns false and sets that counter to zero, in the row and in the user record.
\<close>

theorem InvalidPassword_throttle:
  assumes "Registered IsPPID m" and "password \<noteq> []" and "faults w = []"
  shows "take 2 (news w (snd (InvalidPassword IsPPID pwInvalid m password w)))
           = [Sleep (throttle m), Read passwords_tbl]
         \<and> (0 \<le> sint (LoginAttempts m) \<and> sint (LoginAttempts m) \<le> 1844674407 \<longrightarrow>
              pause (throttle m) = 5000000000 * sint (LoginAttempts m))
         \<and> (\<forall>pw. find (\<lambda>p. pw_uid p = UserUID m) (passwords w) = Some pw
                   \<and> pwInvalid pw password \<longrightarrow>
              fst (InvalidPassword IsPPID pwInvalid m password w) = (True, m)
              \<and> length (users (snd (InvalidPassword IsPPID pwInvalid m password w)))
                  = length (users w)
              \<and> (\<forall>i < length (users w).
                    users (snd (InvalidPassword IsPPID pwInvalid m password w)) ! i =
                      (if model_row m (users w ! i)
                       then (users w ! i)\<lparr>LoginAttempts := LoginAttempts (users w ! i) + 1\<rparr>
                       else users w ! i)))
         \<and> (\<forall>pw. find (\<lambda>p. pw_uid p = UserUID m) (passwords w) = Some pw
                   \<and> \<not> pwInvalid pw password \<longrightarrow>
              fst (InvalidPassword IsPPID pwInvalid m password w)
                = (False, m\<lparr>LoginAttempts := 0, LoginAt := Some (now w)\<rparr>)
              \<and> length (users (snd (InvalidPassword IsPPID pwInvalid m password w)))
                  = length (users w)
              \<and> (\<forall>i < length (users w).
                    users (snd (InvalidPassword IsPPID pwInvalid m password w)) ! i =
                      (if model_row m (users w ! i)
                       then (users w ! i)\<lparr>LoginAttempts := 0, LoginAt := Some (now w)\<rparr>
                       else users w ! i)))"
proof -
  let ?w1 = "emit (Read passwords_tbl) (emit (Sleep (throttle m)) w)"
  let ?found = "find (\<lambda>p. pw_uid p = UserUID m) (passwords w)"
  have fp: "FindPassword (UserUID m) (emit (Sleep (throttle m)) w) = (?found, ?w1)"
    using assms(3) by (simp add: FindPassword_healthy emit_simps)
  have h1: "faults ?w1 = []"
    using assms(3) by (simp add: emit_simps)
  have run: "InvalidPassword IsPPID pwInvalid m password w =
       (case ?found of
          None \<Rightarrow> ((True, m), ?w1)
        | Some pw \<Rightarrow>
            if pwInvalid pw password
            then ((True, m), (emit (Write users_tbl) ?w1)
                    \<lparr>users := map (count_failure m) (users w)\<rparr>)
            else ((False, m\<lparr>LoginAttempts := 0, LoginAt := Some (now w)\<rparr>),
                  (emit (Write users_tbl) ?w1)
                    \<lparr>users := map (count_login m (now w)) (users w)\<rparr>))"
    using assms(1,2)
    by (simp add: InvalidPassword_def fp attempt_healthy [OF h1] emit_simps
          split: option.splits)
  have first: "take 2 (news w (snd (InvalidPassword IsPPID pwInvalid m password w)))
                 = [Sleep (throttle m), Read passwords_tbl]"
    by (simp add: run news_def emit_def split: option.splits)
  have delay: "0 \<le> sint (LoginAttempts m) \<and> sint (LoginAttempts m) \<le> 1844674407 \<longrightarrow>
                 pause (throttle m) = 5000000000 * sint (LoginAttempts m)"
    using throttle_pause by blast
  have failed: "\<forall>pw. ?found = Some pw \<and> pwInvalid pw password \<longrightarrow>
              fst (InvalidPassword IsPPID pwInvalid m password w) = (True, m)
              \<and> length (users (snd (InvalidPassword IsPPID pwInvalid m password w)))
                  = length (users w)
              \<and> (\<forall>i < length (users w).
                    users (snd (InvalidPassword IsPPID pwInvalid m password w)) ! i =
                      (if model_row m (users w ! i)
                       then (users w ! i)\<lparr>LoginAttempts := LoginAttempts (users w ! i) + 1\<rparr>
                       else users w ! i))"
    by (simp add: run count_failure_def)
  have passed: "\<forall>pw. ?found = Some pw \<and> \<not> pwInvalid pw password \<longrightarrow>
              fst (InvalidPassword IsPPID pwInvalid m password w)
                = (False, m\<lparr>LoginAttempts := 0, LoginAt := Some (now w)\<rparr>)
              \<and> length (users (snd (InvalidPassword IsPPID pwInvalid m password w)))
                  = length (users w)
              \<and> (\<forall>i < length (users w).
                    users (snd (InvalidPassword IsPPID pwInvalid m password w)) ! i =
                      (if model_row m (users w ! i)
                       then (users w ! i)\<lparr>LoginAttempts := 0, LoginAt := Some (now w)\<rparr>
                       else users w ! i))"
    by (simp add: run count_login_def)
  from first delay failed passed show ?thesis
    by blast
qed

lemma login_example_wrong:
  "InvalidPassword example_IsPPID example_pwInvalid alice ''guess'' login_example
     = ((True, alice),
        login_example\<lparr>users := [alice\<lparr>LoginAttempts := 4\<rparr>, bob],
                       trace := [Sleep 15000000000, Read passwords_tbl, Write users_tbl]\<rparr>)"
  by (simp add: InvalidPassword_def Registered_def example_IsPPID_def example_pwInvalid_def
        FindPassword_def attempt_def emit_def throttle_def count_failure_def model_row_def
        user_scoped_def login_example_def blank_world_def alice_def bob_def)

lemma login_example_right:
  "InvalidPassword example_IsPPID example_pwInvalid alice ''secret'' login_example
     = ((False, alice\<lparr>LoginAttempts := 0, LoginAt := Some 1000\<rparr>),
        login_example\<lparr>users := [alice\<lparr>LoginAttempts := 0, LoginAt := Some 1000\<rparr>, bob],
                       trace := [Sleep 15000000000, Read passwords_tbl, Write users_tbl]\<rparr>)"
  by (simp add: InvalidPassword_def Registered_def example_IsPPID_def example_pwInvalid_def
        FindPassword_def attempt_def emit_def throttle_def count_login_def model_row_def
        user_scoped_def login_example_def blank_world_def alice_def bob_def)

theorem InvalidPassword_throttle_witness:
  "Registered example_IsPPID alice
   \<and> faults login_example = []
   \<and> sint (LoginAttempts alice) = 3
   \<and> pause (throttle alice) = 15000000000
   \<and> pause (throttle (alice\<lparr>LoginAttempts := 0\<rparr>)) = 0
   \<and> take 2 (trace (snd (InvalidPassword example_IsPPID example_pwInvalid alice ''guess''
                           login_example)))
       = [Sleep (throttle alice), Read passwords_tbl]
   \<and> fst (InvalidPassword example_IsPPID example_pwInvalid alice ''guess'' login_example)
       = (True, alice)
   \<and> map LoginAttempts
        (users (snd (InvalidPassword example_IsPPID example_pwInvalid alice ''guess''
                      login_example))) = [4, 1]
   \<and> fst (fst (InvalidPassword example_IsPPID example_pwInvalid alice ''secret'' login_example))
       = False
   \<and> map LoginAttempts
        (users (snd (InvalidPassword example_IsPPID example_pwInvalid alice ''secret''
                      login_example))) = [0, 1]"
proof -
  have r: "Registered example_IsPPID alice"
    by (simp add: Registered_def example_IsPPID_def alice_def)
  have h: "faults login_example = []" and t: "trace login_example = []"
    by (simp_all add: login_example_def blank_world_def)
  have a3: "sint (LoginAttempts alice) = 3" "sint (LoginAttempts (alice\<lparr>LoginAttempts := 0\<rparr>)) = 0"
    by (simp_all add: alice_def)
  have r0: "Registered example_IsPPID (alice\<lparr>LoginAttempts := 0\<rparr>)"
    by (simp add: Registered_def example_IsPPID_def alice_def)
  note G = InvalidPassword_throttle [of example_IsPPID alice "''guess''" login_example
             example_pwInvalid, OF r _ h]
  note Z = InvalidPassword_throttle [of example_IsPPID "alice\<lparr>LoginAttempts := 0\<rparr>" "''guess''"
             login_example example_pwInvalid, OF r0 _ h]
  have p3: "pause (throttle alice) = 15000000000"
    using G a3 by simp
  have p0: "pause (throttle (alice\<lparr>LoginAttempts := 0\<rparr>)) = 0"
    using Z a3 by simp
  have tr: "take 2 (trace (snd (InvalidPassword example_IsPPID example_pwInvalid alice ''guess''
                                 login_example)))
              = [Sleep (throttle alice), Read passwords_tbl]"
    using G by (simp add: news_def t)
  show ?thesis
    using r h a3 p3 p0 tr
    by (simp add: login_example_wrong login_example_right) (simp add: alice_def bob_def)
qed

text \<open>
  The claim as it is worded, for each credential check, fails for an empty password: the
  user record has three failed attempts and the check returns without any delay.  It
  also fails once the product no longer fits a duration: for a count of 1844674408 the
  duration wraps around to a negative one and the call does not wait.
\<close>

theorem InvalidPassword_no_delay_counterexample:
  "Registered example_IsPPID alice
   \<and> LoginAttempts alice = 3
   \<and> fst (fst (InvalidPassword example_IsPPID example_pwInvalid alice [] login_example)) = True
   \<and> filter is_sleep
        (trace (snd (InvalidPassword example_IsPPID example_pwInvalid alice [] login_example)))
       = []
   \<and> pause (throttle (alice\<lparr>LoginAttempts := 1844674408\<rparr>)) = 0"
  by (simp add: InvalidPassword_def Registered_def example_IsPPID_def alice_def
        login_example_def blank_world_def pause_def throttle_def)

subsection \<open>Empty selections\<close>

text \<open>
  Claim C5, as the code has it.  A request whose selection is empty in the identifier
  list the operation requires changes no table and sends no statement to the store,
  whichever of the seven operations it is sent to.  Its outcome is decided by the first
  gate that closes: unauthorized when the access-control check denies it,
  feature-disabled when it asks for permanent deletion while deletion is switched off or
  the store is read-only, and otherwise the bad request with the message of the
  operation.
\<close>

theorem empty_selection_rejected:
  "json c = Some f \<and> selected b f = [] \<longrightarrow>
     (snd (route b conf c w))\<lparr>trace := trace w\<rparr> = w
     \<and> filter is_stmt (news w (snd (route b conf c w))) = []
     \<and> fst (route b conf c w) =
         (if \<not> permitted b c then AbortUnauthorized
          else if gated b conf then AbortFeatureDisabled
          else Abort StatusBadRequest (complaint b))
     \<and> (permitted b c \<and> \<not> gated b conf \<longrightarrow> bad_request (fst (route b conf c w)))"
  by (cases b)
     (auto simp: BatchPhotosArchive_def BatchPhotosRestore_def BatchPhotosApprove_def
        BatchAlbumsDelete_def BatchPhotosPrivate_def BatchLabelsDelete_def
        BatchPhotosDelete_def gated_def news_def emit_def)

theorem empty_selection_rejected_witness:
  "json nothing_selected = Some \<lparr>Photos = [], Albums = [], Labels = []\<rparr>
   \<and> permitted DeleteLabels nothing_selected
   \<and> \<not> gated DeleteLabels deletion_off
   \<and> route DeleteLabels deletion_off nothing_selected blank_world
       = (Abort 400 ErrNoLabelsSelected, blank_world\<lparr>trace := [LogError ''no labels selected'']\<rparr>)
   \<and> bad_request (fst (route DeleteLabels deletion_off nothing_selected blank_world))
   \<and> route DeletePhotos deletion_on nothing_selected blank_world
       = (Abort 400 ErrNoItemsSelected, blank_world)
   \<and> route DeletePhotos deletion_on (nothing_selected\<lparr>allow := deny_all\<rparr>) blank_world
       = (AbortUnauthorized, blank_world)"
  using empty_selection_rejected [where c = nothing_selected
          and f = "\<lparr>Photos = [], Albums = [], Labels = []\<rparr>" and b = DeleteLabels
          and conf = deletion_off and w = blank_world]
    empty_selection_rejected [where c = nothing_selected
          and f = "\<lparr>Photos = [], Albums = [], Labels = []\<rparr>" and b = DeletePhotos
          and conf = deletion_on and w = blank_world]
  by (simp add: nothing_selected_def allow_all_def deny_all_def Auth_def gated_def
        deletion_off_def deletion_on_def BatchLabelsDelete_def BatchPhotosDelete_def emit_def
        blank_world_def StatusBadRequest_def)

text \<open>
  The claim as it is worded, a bad request for every batch operation, fails for
  permanent deletion: with the deletion feature switched off, an allowed request with an
  empty selection is answered as feature-disabled, not as a bad request.
\<close>

theorem empty_selection_feature_gate_counterexample:
  "permitted DeletePhotos nothing_selected
   \<and> json nothing_selected = Some \<lparr>Photos = [], Albums = [], Labels = []\<rparr>
   \<and> fst (BatchPhotosDelete deletion_off nothing_selected blank_world) = AbortFeatureDisabled
   \<and> \<not> bad_request (fst (BatchPhotosDelete deletion_off nothing_selected blank_world))"
  by (simp add: nothing_selected_def allow_all_def Auth_def deletion_off_def
        BatchPhotosDelete_def)

subsection \<open>Facts about the collaborators\<close>

lemma UpdatePhotoCounts_healthy:
  "faults w = [] \<Longrightarrow> logError prefix (UpdatePhotoCounts w) = emit Recount w"
  by (simp add: UpdatePhotoCounts_def logError_def attempt_healthy)

lemma PhotoSelection_healthy:
  "faults w = [] \<Longrightarrow>
     PhotoSelection f w
       = (if filter (\<lambda>p. photo_uid p \<in> set (Photos f)) (photos w) = [] then None
          else Some (filter (\<lambda>p. photo_uid p \<in> set (Photos f)) (photos w)),
          emit (Read photos_tbl) w)"
  by (simp add: PhotoSelection_def attempt_healthy emit_simps split: list.splits)

lemma found_iff:
  "filter (\<lambda>p. photo_uid p \<in> set us) ps \<noteq> [] \<longleftrightarrow> (\<exists>p \<in> set ps. photo_uid p \<in> set us)"
  by (auto simp: filter_empty_conv)

lemma yaml_loop_run:
  "yaml_loop ps w = w\<lparr>trace := trace w @ map (\<lambda>p. SaveYaml (photo_uid p)) ps\<rparr>"
  by (induction ps arbitrary: w) (simp_all add: SavePhotoAsYaml_def emit_def)

subsection \<open>Toggling privacy\<close>

lemma toggle_private_twice: "toggle_private uids (toggle_private uids p) = p"
  by (simp add: toggle_private_def photo_scoped_def)

text \<open>
  What the privacy handler does to the world when the request is allowed, the selection
  is not empty and nothing fails.  The backups and the event depend on the selection
  resolving to a photo; the update of the flags does not.
\<close>

lemma BatchPhotosPrivate_run:
  assumes "Auth c ResourcePhotos ActionPrivate" and "json c = Some f" and "Photos f \<noteq> []"
      and "faults w = []"
  shows "BatchPhotosPrivate c w =
     (JSON StatusOK MsgSelectionProtected,
      w\<lparr>photos := map (toggle_private (Photos f)) (photos w),
        trace := trace w
          @ [LogInfo ''photos: updating private flag'', Write photos_tbl, Recount, Read photos_tbl]
          @ (if filter (\<lambda>p. photo_uid p \<in> set (Photos f))
                  (map (toggle_private (Photos f)) (photos w)) = [] then []
             else map (\<lambda>p. SaveYaml (photo_uid p))
                    (filter (\<lambda>p. photo_uid p \<in> set (Photos f))
                       (map (toggle_private (Photos f)) (photos w)))
                  @ [Notify ''updated'' ''photos''
                       (Entities (filter (\<lambda>p. photo_uid p \<in> set (Photos f))
                                    (map (toggle_private (Photos f)) (photos w))))])
          @ [ClientConfig, CoverCache]\<rparr>)"
proof -
  let ?w0 = "emit (LogInfo ''photos: updating private flag'') w"
  let ?w1 = "emit (Write photos_tbl) ?w0"
  let ?w2 = "?w1\<lparr>photos := map (toggle_private (Photos f)) (photos ?w1)\<rparr>"
  let ?w3 = "emit (Read photos_tbl) (emit Recount ?w2)"
  let ?ps = "filter (\<lambda>p. photo_uid p \<in> set (Photos f)) (photos (emit Recount ?w2))"
  have h0: "faults ?w0 = []" and h2: "faults ?w2 = []" and h3: "faults (emit Recount ?w2) = []"
    using assms(4) by (simp_all add: emit_simps)
  have "BatchPhotosPrivate c w =
          (JSON StatusOK MsgSelectionProtected,
           FlushCoverCache (UpdateClientConfig
             (if ?ps = [] then ?w3 else EntitiesUpdated ''photos'' ?ps (yaml_loop ?ps ?w3))))"
    using assms(1-3)
    by (simp add: BatchPhotosPrivate_def attempt_healthy [OF h0]
          UpdatePhotoCounts_healthy [OF h2] PhotoSelection_healthy [OF h3] Let_def)
  also have "\<dots> = (JSON StatusOK MsgSelectionProtected,
      w\<lparr>photos := map (toggle_private (Photos f)) (photos w),
        trace := trace w
          @ [LogInfo ''photos: updating private flag'', Write photos_tbl, Recount, Read photos_tbl]
          @ (if filter (\<lambda>p. photo_uid p \<in> set (Photos f))
                  (map (toggle_private (Photos f)) (photos w)) = [] then []
             else map (\<lambda>p. SaveYaml (photo_uid p))
                    (filter (\<lambda>p. photo_uid p \<in> set (Photos f))
                       (map (toggle_private (Photos f)) (photos w)))
                  @ [Notify ''updated'' ''photos''
                       (Entities (filter (\<lambda>p. photo_uid p \<in> set (Photos f))
                                    (map (toggle_private (Photos f)) (photos w))))])
          @ [ClientConfig, CoverCache]\<rparr>)"
    by (simp add: yaml_loop_run EntitiesUpdated_def UpdateClientConfig_def FlushCoverCache_def
          emit_def)
  finally show ?thesis .
qed

text \<open>
  Claim C7.  For an allowed request with a non-empty selection of photos and a store that
  executes its statements, one call of the privacy handler inverts the private flag of
  each selected photo that is not archived and leaves every other photo as it is, and a
  second call with the same selection gives back the photos table of the start: each
  affected flag has its original value.
\<close>

theorem BatchPhotosPrivate_involution:
  assumes "Auth c ResourcePhotos ActionPrivate" and "json c = Some f" and "Photos f \<noteq> []"
      and "faults w = []"
  shows "fst (BatchPhotosPrivate c w) = JSON StatusOK MsgSelectionProtected
         \<and> length (photos (snd (BatchPhotosPrivate c w))) = length (photos w)
         \<and> (\<forall>i < length (photos w).
               photos (snd (BatchPhotosPrivate c w)) ! i =
                 (if photo_scoped (photos w ! i) \<and> photo_uid (photos w ! i) \<in> set (Photos f)
                  then (photos w ! i)\<lparr>photo_private := \<not> photo_private (photos w ! i)\<rparr>
                  else photos w ! i))
         \<and> fst (BatchPhotosPrivate c (snd (BatchPhotosPrivate c w)))
             = JSON StatusOK MsgSelectionProtected
         \<and> photos (snd (BatchPhotosPrivate c (snd (BatchPhotosPrivate c w)))) = photos w"
proof -
  note once = BatchPhotosPrivate_run [OF assms]
  have h': "faults (snd (BatchPhotosPrivate c w)) = []"
    using assms(4) by (simp add: once)
  note twice = BatchPhotosPrivate_run [OF assms(1-3) h']
  have "photos (snd (BatchPhotosPrivate c (snd (BatchPhotosPrivate c w))))
          = map (toggle_private (Photos f)) (map (toggle_private (Photos f)) (photos w))"
    by (simp add: twice) (simp add: once)
  then have orig: "photos (snd (BatchPhotosPrivate c (snd (BatchPhotosPrivate c w)))) = photos w"
    by (simp add: toggle_private_twice comp_def)
  have rows: "\<forall>i < length (photos w).
               photos (snd (BatchPhotosPrivate c w)) ! i =
                 (if photo_scoped (photos w ! i) \<and> photo_uid (photos w ! i) \<in> set (Photos f)
                  then (photos w ! i)\<lparr>photo_private := \<not> photo_private (photos w ! i)\<rparr>
                  else photos w ! i)"
    by (simp add: once toggle_private_def)
  show ?thesis
    using orig rows by (simp add: twice) (simp add: once)
qed

theorem BatchPhotosPrivate_involution_witness:
  "Auth (selecting [''p1'', ''p3'']) ResourcePhotos ActionPrivate
   \<and> faults library_example = []
   \<and> map photo_private (photos library_example) = [False, True, True]
   \<and> photos (snd (BatchPhotosPrivate (selecting [''p1'', ''p3'']) library_example)) ! 0
       = blank_photo\<lparr>photo_uid := ''p1'', photo_private := True\<rparr>
   \<and> photos (snd (BatchPhotosPrivate (selecting [''p1'', ''p3'']) library_example)) ! 2
       = blank_photo\<lparr>photo_uid := ''p3'', photo_private := True, photo_deleted_at := Some 7\<rparr>
   \<and> map photo_private (photos (snd (BatchPhotosPrivate (selecting [''p1'', ''p3''])
        (snd (BatchPhotosPrivate (selecting [''p1'', ''p3'']) library_example)))))
       = [False, True, True]"
proof -
  let ?c = "selecting [''p1'', ''p3'']"
  let ?f = "\<lparr>Photos = [''p1'', ''p3''], Albums = [], Labels = []\<rparr>"
  have a: "Auth ?c ResourcePhotos ActionPrivate" and j: "json ?c = Some ?f"
    by (simp_all add: selecting_def Auth_def allow_all_def)
  have n: "Photos ?f \<noteq> []"
    by simp
  have h: "faults library_example = []"
    by (simp add: library_example_def blank_world_def)
  have ps: "photos library_example =
              [blank_photo\<lparr>photo_uid := ''p1''\<rparr>,
               blank_photo\<lparr>photo_uid := ''p2'', photo_private := True\<rparr>,
               blank_photo\<lparr>photo_uid := ''p3'', photo_private := True,
                            photo_deleted_at := Some 7\<rparr>]"
    by (simp add: library_example_def blank_world_def)
  note T = BatchPhotosPrivate_involution [OF a j n h]
  from T have rows: "\<forall>i < length (photos library_example).
               photos (snd (BatchPhotosPrivate ?c library_example)) ! i =
                 (if photo_scoped (photos library_example ! i)
                     \<and> photo_uid (photos library_example ! i) \<in> set (Photos ?f)
                  then (photos library_example ! i)
                         \<lparr>photo_private := \<not> photo_private (photos library_example ! i)\<rparr>
                  else photos library_example ! i)"
    and two: "photos (snd (BatchPhotosPrivate ?c (snd (BatchPhotosPrivate ?c library_example))))
               = photos library_example"
    by blast+
  have r0: "photos (snd (BatchPhotosPrivate ?c library_example)) ! 0
          = blank_photo\<lparr>photo_uid := ''p1'', photo_private := True\<rparr>"
    using rows [rule_format, of 0] by (simp add: ps photo_scoped_def blank_photo_def)
  have r2: "photos (snd (BatchPhotosPrivate ?c library_example)) ! 2
          = blank_photo\<lparr>photo_uid := ''p3'', photo_private := True, photo_deleted_at := Some 7\<rparr>"
    using rows [rule_format, of 2] by (simp add: ps photo_scoped_def blank_photo_def)
  have p: "map photo_private (photos library_example) = [False, True, True]"
    by (simp add: ps blank_photo_def)
  show ?thesis
    using a h p r0 r2 by (simp add: two)
qed

subsection \<open>Archiving and restoring\<close>

lemma Archive_healthy:
  "faults w = [] \<Longrightarrow>
     Archive p w =
       (True, w\<lparr>photos := map (soft_delete [photo_uid p] (now w)) (photos w),
                 photos_albums := map (hide [photo_uid p]) (photos_albums w),
                 trace := trace w @ [Write photos_tbl]\<rparr>)"
  by (simp add: Archive_def attempt_healthy emit_def soft_delete_def hide_def conj_commute)

lemma soft_delete_Cons:
  "soft_delete us t (soft_delete [u] t p) = soft_delete (u # us) t p"
  by (simp add: soft_delete_def photo_scoped_def)

lemma hide_Cons: "hide us (hide [u] a) = hide (u # us) a"
  by (simp add: hide_def)

lemma archive_loop_run:
  "faults w = [] \<Longrightarrow>
     archive_loop ps w =
       w\<lparr>photos := map (soft_delete (map photo_uid ps) (now w)) (photos w),
         photos_albums := map (hide (map photo_uid ps)) (photos_albums w),
         trace := trace w @ concat (map (\<lambda>p. [Write photos_tbl, SaveYaml (photo_uid p)]) ps)\<rparr>"
proof (induction ps arbitrary: w)
  case Nil
  have "map (soft_delete [] (now w)) (photos w) = photos w"
    by (simp add: soft_delete_def map_idI)
  moreover have "map (hide []) (photos_albums w) = photos_albums w"
    by (simp add: hide_def map_idI)
  ultimately show ?case by simp
next
  case (Cons p ps)
  let ?w1 = "w\<lparr>photos := map (soft_delete [photo_uid p] (now w)) (photos w),
                photos_albums := map (hide [photo_uid p]) (photos_albums w),
                trace := trace w @ [Write photos_tbl, SaveYaml (photo_uid p)]\<rparr>"
  have h1: "faults ?w1 = []"
    using Cons.prems by simp
  have "archive_loop (p # ps) w = archive_loop ps ?w1"
    by (simp add: Archive_healthy [OF Cons.prems] SavePhotoAsYaml_def emit_def)
  also have "\<dots> = ?w1\<lparr>photos := map (soft_delete (map photo_uid ps) (now ?w1)) (photos ?w1),
         photos_albums := map (hide (map photo_uid ps)) (photos_albums ?w1),
         trace := trace ?w1 @ concat (map (\<lambda>p. [Write photos_tbl, SaveYaml (photo_uid p)]) ps)\<rparr>"
    by (rule Cons.IH [OF h1])
  also have "\<dots> = w\<lparr>photos := map (soft_delete (map photo_uid (p # ps)) (now w)) (photos w),
         photos_albums := map (hide (map photo_uid (p # ps))) (photos_albums w),
         trace := trace w
           @ concat (map (\<lambda>p. [Write photos_tbl, SaveYaml (photo_uid p)]) (p # ps))\<rparr>"
    by (simp add: soft_delete_Cons hide_Cons comp_def)
  finally show ?case .
qed

lemma soft_delete_cong:
  "photo_uid p \<in> set us \<longleftrightarrow> photo_uid p \<in> set vs \<Longrightarrow> soft_delete us t p = soft_delete vs t p"
  by (simp add: soft_delete_def)

lemma soft_delete_found:
  "map (soft_delete (map photo_uid (filter (\<lambda>p. photo_uid p \<in> set us) ps)) t) ps
     = map (soft_delete us t) ps"
  by (rule map_cong [OF refl], rule soft_delete_cong) auto

lemma set_found:
  "set (map photo_uid (filter (\<lambda>p. photo_uid p \<in> set (Photos f)) (photos w)))
     = set (matching f w)"
  by (auto simp: matching_def)

lemma hide_set: "set us = set vs \<Longrightarrow> hide us = hide vs"
  by (rule ext) (simp add: hide_def)

lemma archive_finish_healthy:
  "faults w = [] \<Longrightarrow>
     archive_finish f w =
       (JSON StatusOK MsgSelectionArchived,
        w\<lparr>trace := trace w @ [Recount, ClientConfig, Notify ''archived'' ''photos'' (UIDs (Photos f))]\<rparr>)"
  by (simp add: archive_finish_def UpdatePhotoCounts_healthy UpdateClientConfig_def
        EntitiesArchived_def emit_def)

text \<open>
  What the archive handler does to the world, on either path, when the request is
  allowed, the selection is not empty and nothing fails.  With YAML backups the handler
  first resolves the selection, and answers not-found when it names no photo.
\<close>

lemma BatchPhotosArchive_not_found:
  assumes "Auth c ResourcePhotos ActionDelete" and "json c = Some f" and "Photos f \<noteq> []"
      and "faults w = []" and "BackupYaml conf"
      and "\<not> (\<exists>p \<in> set (photos w). photo_uid p \<in> set (Photos f))"
  shows "BatchPhotosArchive conf c w =
     (AbortEntityNotFound, w\<lparr>trace := trace w @ [LogInfo ''photos: archiving'', Read photos_tbl]\<rparr>)"
proof -
  let ?w0 = "emit (LogInfo ''photos: archiving'') w"
  have h0: "faults ?w0 = []"
    using assms(4) by (simp add: emit_simps)
  have none: "filter (\<lambda>p. photo_uid p \<in> set (Photos f)) (photos w) = []"
    using assms(6) found_iff [of "Photos f" "photos w"] by blast
  show ?thesis
    using assms(1-3,5)
    by (simp add: BatchPhotosArchive_def PhotoSelection_healthy [OF h0] emit_simps none)
qed

lemma BatchPhotosArchive_run:
  assumes "Auth c ResourcePhotos ActionDelete" and "json c = Some f" and "Photos f \<noteq> []"
      and "faults w = []"
      and "BackupYaml conf \<Longrightarrow> \<exists>p \<in> set (photos w). photo_uid p \<in> set (Photos f)"
  shows "BatchPhotosArchive conf c w =
     (JSON StatusOK MsgSelectionArchived,
      w\<lparr>photos := map (soft_delete (Photos f) (now w)) (photos w),
        photos_albums :=
          map (hide (if BackupYaml conf then matching f w else Photos f)) (photos_albums w),
        trace := trace w
          @ (if BackupYaml conf
             then [LogInfo ''photos: archiving'', Read photos_tbl]
                  @ concat (map (\<lambda>p. [Write photos_tbl, SaveYaml (photo_uid p)])
                      (filter (\<lambda>p. photo_uid p \<in> set (Photos f)) (photos w)))
             else [LogInfo ''photos: archiving'', Write photos_tbl, Write photos_albums_tbl])
          @ [Recount, ClientConfig, Notify ''archived'' ''photos'' (UIDs (Photos f))]\<rparr>)"
proof (cases "BackupYaml conf")
  case True
  let ?w0 = "emit (LogInfo ''photos: archiving'') w"
  let ?w1 = "emit (Read photos_tbl) ?w0"
  let ?ps = "filter (\<lambda>p. photo_uid p \<in> set (Photos f)) (photos w)"
  have h0: "faults ?w0 = []" and h1: "faults ?w1 = []"
    using assms(4) by (simp_all add: emit_simps)
  have loop: "archive_loop ?ps ?w1 =
      w\<lparr>photos := map (soft_delete (Photos f) (now w)) (photos w),
        photos_albums := map (hide (matching f w)) (photos_albums w),
        trace := trace w @ [LogInfo ''photos: archiving'', Read photos_tbl]
          @ concat (map (\<lambda>p. [Write photos_tbl, SaveYaml (photo_uid p)]) ?ps)\<rparr>"
    unfolding archive_loop_run [OF h1]
    by (simp add: emit_def soft_delete_found hide_set [OF set_found])
  have h2: "faults (archive_loop ?ps ?w1) = []"
    using assms(4) by (simp add: loop)
  have some: "?ps \<noteq> []"
    using assms(5) [OF True] found_iff [of "Photos f" "photos w"] by blast
  have "BatchPhotosArchive conf c w = archive_finish f (archive_loop ?ps ?w1)"
    using assms(1-3) True
    by (simp add: BatchPhotosArchive_def PhotoSelection_healthy [OF h0] emit_simps some)
  also have "\<dots> = (JSON StatusOK MsgSelectionArchived,
        (archive_loop ?ps ?w1)\<lparr>trace := trace (archive_loop ?ps ?w1)
           @ [Recount, ClientConfig, Notify ''archived'' ''photos'' (UIDs (Photos f))]\<rparr>)"
    by (rule archive_finish_healthy [OF h2])
  finally show ?thesis
    using True by (simp add: loop)
next
  case False
  let ?w0 = "emit (LogInfo ''photos: archiving'') w"
  let ?w1 = "emit (Write photos_tbl) ?w0"
  let ?w2 = "?w1\<lparr>photos := map (soft_delete (Photos f) (now ?w1)) (photos ?w1)\<rparr>"
  let ?w3 = "emit (Write photos_albums_tbl) ?w2"
  let ?w4 = "?w3\<lparr>photos_albums := map (hide (Photos f)) (photos_albums ?w3)\<rparr>"
  have h0: "faults ?w0 = []" and h2: "faults ?w2 = []" and h4: "faults ?w4 = []"
    using assms(4) by (simp_all add: emit_simps)
  have "BatchPhotosArchive conf c w = archive_finish f ?w4"
    using assms(1-3) False
    by (simp add: BatchPhotosArchive_def attempt_healthy [OF h0] attempt_healthy [OF h2])
  also have "\<dots> = (JSON StatusOK MsgSelectionArchived,
        ?w4\<lparr>trace := trace ?w4
           @ [Recount, ClientConfig, Notify ''archived'' ''photos'' (UIDs (Photos f))]\<rparr>)"
    by (rule archive_finish_healthy [OF h4])
  finally show ?thesis
    using False by (simp add: emit_def)
qed


lemma quiet_loop:
  "e \<in> set (concat (map (\<lambda>p. [Write photos_tbl, SaveYaml (photo_uid p)]) ps))
     \<Longrightarrow> e \<noteq> Recount \<and> \<not> is_notify e"
  by (induction ps) auto

text \<open>
  Claim C3, as the code has it.  Take an allowed request with a non-empty selection of
  photos and a store on which nothing fails.

  \<^item> If YAML backups are kept and the selection names no photo of the store, the handler
    answers not-found after resolving the selection: no row changes, nothing is
    recomputed and no event is emitted.
  \<^item> Otherwise the handler answers with success.  It stamps every selected photo that is
    not yet archived with the current time and leaves every other photo row as it is, so
    that afterwards every photo of the selection is soft-deleted.  It sets the hidden flag
    on every album membership of a selected photo of the store, and leaves the
    memberships of photos outside the selection as they are.  It ends with the
    recomputation of the counts, the refresh of the client configuration and one
    \<open>archived\<close> event for \<open>photos\<close> that carries the selected identifiers; no other
    recomputation and no other event precedes them.
\<close>

theorem BatchPhotosArchive_effect:
  assumes "Auth c ResourcePhotos ActionDelete" and "json c = Some f" and "Photos f \<noteq> []"
      and "faults w = []"
  shows "(BackupYaml conf \<and> \<not> (\<exists>p \<in> set (photos w). photo_uid p \<in> set (Photos f)) \<longrightarrow>
        fst (BatchPhotosArchive conf c w) = AbortEntityNotFound
        \<and> (snd (BatchPhotosArchive conf c w))\<lparr>trace := trace w\<rparr> = w
        \<and> news w (snd (BatchPhotosArchive conf c w))
            = [LogInfo ''photos: archiving'', Read photos_tbl])
     \<and> (\<not> BackupYaml conf \<or> (\<exists>p \<in> set (photos w). photo_uid p \<in> set (Photos f)) \<longrightarrow>
        fst (BatchPhotosArchive conf c w) = JSON StatusOK MsgSelectionArchived
        \<and> length (photos (snd (BatchPhotosArchive conf c w))) = length (photos w)
        \<and> (\<forall>i < length (photos w).
              photos (snd (BatchPhotosArchive conf c w)) ! i =
                (if photo_uid (photos w ! i) \<in> set (Photos f)
                    \<and> photo_deleted_at (photos w ! i) = None
                 then (photos w ! i)\<lparr>photo_deleted_at := Some (now w)\<rparr>
                 else photos w ! i))
        \<and> (\<forall>p \<in> set (photos (snd (BatchPhotosArchive conf c w))).
              photo_uid p \<in> set (Photos f) \<longrightarrow> photo_deleted_at p \<noteq> None)
        \<and> length (photos_albums (snd (BatchPhotosArchive conf c w))) = length (photos_albums w)
        \<and> (\<forall>i < length (photos_albums w).
              (pa_photo_uid (photos_albums w ! i) \<in> set (Photos f)
                 \<and> (\<exists>p \<in> set (photos w). photo_uid p = pa_photo_uid (photos_albums w ! i)) \<longrightarrow>
                 photos_albums (snd (BatchPhotosArchive conf c w)) ! i
                   = (photos_albums w ! i)\<lparr>pa_hidden := True\<rparr>)
            \<and> (pa_photo_uid (photos_albums w ! i) \<notin> set (Photos f) \<longrightarrow>
                 photos_albums (snd (BatchPhotosArchive conf c w)) ! i = photos_albums w ! i))
        \<and> (\<exists>pre. news w (snd (BatchPhotosArchive conf c w))
                    = pre @ [Recount, ClientConfig,
                             Notify ''archived'' ''photos'' (UIDs (Photos f))]
                  \<and> (\<forall>e \<in> set pre. e \<noteq> Recount \<and> \<not> is_notify e)))"
proof (intro conjI impI)
  assume a: "BackupYaml conf \<and> \<not> (\<exists>p \<in> set (photos w). photo_uid p \<in> set (Photos f))"
  note nf = BatchPhotosArchive_not_found [OF assms conjunct1 [OF a] conjunct2 [OF a]]
  show "fst (BatchPhotosArchive conf c w) = AbortEntityNotFound"
    and "(snd (BatchPhotosArchive conf c w))\<lparr>trace := trace w\<rparr> = w"
    and "news w (snd (BatchPhotosArchive conf c w))
            = [LogInfo ''photos: archiving'', Read photos_tbl]"
    by (simp_all add: nf news_def)
next
  assume a: "\<not> BackupYaml conf \<or> (\<exists>p \<in> set (photos w). photo_uid p \<in> set (Photos f))"
  then have some: "BackupYaml conf \<Longrightarrow> \<exists>p \<in> set (photos w). photo_uid p \<in> set (Photos f)"
    by blast
  note run = BatchPhotosArchive_run [OF assms some]
  let ?w' = "snd (BatchPhotosArchive conf c w)"
  let ?pre = "if BackupYaml conf
             then [LogInfo ''photos: archiving'', Read photos_tbl]
                  @ concat (map (\<lambda>p. [Write photos_tbl, SaveYaml (photo_uid p)])
                      (filter (\<lambda>p. photo_uid p \<in> set (Photos f)) (photos w)))
             else [LogInfo ''photos: archiving'', Write photos_tbl, Write photos_albums_tbl]"
  show r: "fst (BatchPhotosArchive conf c w) = JSON StatusOK MsgSelectionArchived"
    by (simp add: run)
  have ph: "photos ?w' = map (soft_delete (Photos f) (now w)) (photos w)"
    by (simp add: run)
  have al: "photos_albums ?w'
              = map (hide (if BackupYaml conf then matching f w else Photos f)) (photos_albums w)"
    by (simp add: run)
  show "length (photos ?w') = length (photos w)"
    by (simp add: ph)
  show "\<forall>i < length (photos w).
           photos ?w' ! i =
             (if photo_uid (photos w ! i) \<in> set (Photos f) \<and> photo_deleted_at (photos w ! i) = None
              then (photos w ! i)\<lparr>photo_deleted_at := Some (now w)\<rparr>
              else photos w ! i)"
    by (simp add: ph soft_delete_def photo_scoped_def)
  show "\<forall>p \<in> set (photos ?w'). photo_uid p \<in> set (Photos f) \<longrightarrow> photo_deleted_at p \<noteq> None"
    by (auto simp: ph soft_delete_def photo_scoped_def)
  show "length (photos_albums ?w') = length (photos_albums w)"
    by (simp add: al)
  have m: "u \<in> set (matching f w)
             \<longleftrightarrow> u \<in> set (Photos f) \<and> (\<exists>p \<in> set (photos w). photo_uid p = u)" for u
    by (auto simp: matching_def)
  show "\<forall>i < length (photos_albums w).
           (pa_photo_uid (photos_albums w ! i) \<in> set (Photos f)
              \<and> (\<exists>p \<in> set (photos w). photo_uid p = pa_photo_uid (photos_albums w ! i)) \<longrightarrow>
              photos_albums ?w' ! i = (photos_albums w ! i)\<lparr>pa_hidden := True\<rparr>)
         \<and> (pa_photo_uid (photos_albums w ! i) \<notin> set (Photos f) \<longrightarrow>
              photos_albums ?w' ! i = photos_albums w ! i)"
    by (simp add: al hide_def m)
  have tr: "news w ?w'
              = ?pre @ [Recount, ClientConfig, Notify ''archived'' ''photos'' (UIDs (Photos f))]"
    by (simp add: run news_def)
  have quiet: "\<forall>e \<in> set ?pre. e \<noteq> Recount \<and> \<not> is_notify e"
    using quiet_loop by (cases "BackupYaml conf") auto
  from tr quiet show "\<exists>pre. news w ?w'
                 = pre @ [Recount, ClientConfig, Notify ''archived'' ''photos'' (UIDs (Photos f))]
               \<and> (\<forall>e \<in> set pre. e \<noteq> Recount \<and> \<not> is_notify e)"
    by blast
qed

lemma library_example_rows:
  "photos library_example =
     [blank_photo\<lparr>photo_uid := ''p1''\<rparr>,
      blank_photo\<lparr>photo_uid := ''p2'', photo_private := True\<rparr>,
      blank_photo\<lparr>photo_uid := ''p3'', photo_private := True, photo_deleted_at := Some 7\<rparr>]"
  "photos_albums library_example =
     [\<lparr>pa_photo_uid = ''p1'', pa_album_uid = ''a1'', pa_hidden = False\<rparr>,
      \<lparr>pa_photo_uid = ''p2'', pa_album_uid = ''a1'', pa_hidden = False\<rparr>,
      \<lparr>pa_photo_uid = ''p3'', pa_album_uid = ''a2'', pa_hidden = True\<rparr>]"
  "faults library_example = []" "trace library_example = []" "now library_example = 1000"
  by (simp_all add: library_example_def blank_world_def)

lemma selecting_simps:
  "Auth (selecting uids) r a" "json (selecting uids) = Some \<lparr>Photos = uids, Albums = [], Labels = []\<rparr>"
  by (simp_all add: selecting_def Auth_def allow_all_def)

text \<open>
  Photos \<open>p1\<close> and \<open>p3\<close> and the unknown \<open>p9\<close> are selected; \<open>p3\<close> is archived already
  and keeps its timestamp.  Both paths of the handler give the same rows.
\<close>

theorem BatchPhotosArchive_effect_witness:
  "Auth (selecting [''p1'', ''p3'', ''p9'']) ResourcePhotos ActionDelete
   \<and> faults library_example = []
   \<and> fst (BatchPhotosArchive backup_on (selecting [''p1'', ''p3'', ''p9'']) library_example)
       = JSON StatusOK MsgSelectionArchived
   \<and> map photo_deleted_at
        (photos (snd (BatchPhotosArchive backup_on (selecting [''p1'', ''p3'', ''p9''])
                        library_example))) = [Some 1000, None, Some 7]
   \<and> map pa_hidden
        (photos_albums (snd (BatchPhotosArchive backup_on (selecting [''p1'', ''p3'', ''p9''])
                               library_example))) = [True, False, True]
   \<and> trace (snd (BatchPhotosArchive backup_on (selecting [''p1'', ''p3'', ''p9''])
                    library_example))
       = [LogInfo ''photos: archiving'', Read photos_tbl, Write photos_tbl, SaveYaml ''p1'',
          Write photos_tbl, SaveYaml ''p3'',
          Recount, ClientConfig, Notify ''archived'' ''photos'' (UIDs [''p1'', ''p3'', ''p9''])]
   \<and> fst (BatchPhotosArchive deletion_on (selecting [''p1'', ''p3'', ''p9'']) library_example)
       = JSON StatusOK MsgSelectionArchived
   \<and> map photo_deleted_at
        (photos (snd (BatchPhotosArchive deletion_on (selecting [''p1'', ''p3'', ''p9''])
                        library_example))) = [Some 1000, None, Some 7]
   \<and> map pa_hidden
        (photos_albums (snd (BatchPhotosArchive deletion_on (selecting [''p1'', ''p3'', ''p9''])
                               library_example))) = [True, False, True]
   \<and> trace (snd (BatchPhotosArchive deletion_on (selecting [''p1'', ''p3'', ''p9''])
                    library_example))
       = [LogInfo ''photos: archiving'', Write photos_tbl, Write photos_albums_tbl,
          Recount, ClientConfig, Notify ''archived'' ''photos'' (UIDs [''p1'', ''p3'', ''p9''])]
   \<and> fst (BatchPhotosArchive backup_on (selecting [''p9'']) library_example)
       = AbortEntityNotFound
   \<and> photos (snd (BatchPhotosArchive backup_on (selecting [''p9'']) library_example))
       = photos library_example"
proof -
  let ?c = "selecting [''p1'', ''p3'', ''p9'']"
  let ?f = "\<lparr>Photos = [''p1'', ''p3'', ''p9''], Albums = [], Labels = []\<rparr>"
  let ?y = "snd (BatchPhotosArchive backup_on ?c library_example)"
  let ?d = "snd (BatchPhotosArchive deletion_on ?c library_example)"
  let ?n = "BatchPhotosArchive backup_on (selecting [''p9'']) library_example"
  have n: "Photos ?f \<noteq> []" and n9: "Photos \<lparr>Photos = [''p9''], Albums = [], Labels = []\<rparr> \<noteq> []"
    by simp_all
  have ex: "\<exists>p \<in> set (photos library_example). photo_uid p \<in> set (Photos ?f)"
    by (simp add: library_example_rows blank_photo_def)
  have no: "\<not> (\<exists>p \<in> set (photos library_example).
                  photo_uid p \<in> set (Photos \<lparr>Photos = [''p9''], Albums = [], Labels = []\<rparr>))"
    by (simp add: library_example_rows blank_photo_def)
  have by': "BackupYaml backup_on" and bn: "\<not> BackupYaml deletion_on"
    by (simp_all add: backup_on_def deletion_on_def)
  note Y = BatchPhotosArchive_effect [OF selecting_simps(1) selecting_simps(2) n
             library_example_rows(3), of backup_on, THEN conjunct2, rule_format,
             OF disjI2, OF ex]
  note D = BatchPhotosArchive_effect [OF selecting_simps(1) selecting_simps(2) n
             library_example_rows(3), of deletion_on, THEN conjunct2, rule_format,
             OF disjI1, OF bn]
  note N = BatchPhotosArchive_effect [OF selecting_simps(1) selecting_simps(2) n9
             library_example_rows(3), of backup_on, THEN conjunct1, rule_format,
             OF conjI, OF by' no]
  have len: "length (photos library_example) = 3" "length (photos_albums library_example) = 3"
    by (simp_all add: library_example_rows)
  have three: "length xs = 3 \<Longrightarrow> xs = [xs ! 0, xs ! 1, xs ! 2]" for xs :: "'a list"
    by (cases xs; cases "tl xs"; cases "tl (tl xs)") auto
  have rows: "photos w' ! 0 = blank_photo\<lparr>photo_uid := ''p1'', photo_deleted_at := Some 1000\<rparr>
        \<and> photos w' ! 1 = blank_photo\<lparr>photo_uid := ''p2'', photo_private := True\<rparr>
        \<and> photos w' ! 2 = blank_photo\<lparr>photo_uid := ''p3'', photo_private := True,
                                          photo_deleted_at := Some 7\<rparr>"
    if "\<forall>i < length (photos library_example).
           photos w' ! i =
             (if photo_uid (photos library_example ! i) \<in> set (Photos ?f)
                 \<and> photo_deleted_at (photos library_example ! i) = None
              then (photos library_example ! i)\<lparr>photo_deleted_at := Some (now library_example)\<rparr>
              else photos library_example ! i)" for w'
    using that [rule_format, of 0] that [rule_format, of 1] that [rule_format, of 2]
    by (simp add: library_example_rows blank_photo_def)
  have stamps: "map photo_deleted_at (photos w') = [Some 1000, None, Some 7]"
    if "length (photos w') = length (photos library_example)"
      and "\<forall>i < length (photos library_example).
           photos w' ! i =
             (if photo_uid (photos library_example ! i) \<in> set (Photos ?f)
                 \<and> photo_deleted_at (photos library_example ! i) = None
              then (photos library_example ! i)\<lparr>photo_deleted_at := Some (now library_example)\<rparr>
              else photos library_example ! i)" for w'
  proof -
    from that(1) have "photos w' = [photos w' ! 0, photos w' ! 1, photos w' ! 2]"
      by (intro three) (simp add: len)
    then have "map photo_deleted_at (photos w')
                 = [photo_deleted_at (photos w' ! 0), photo_deleted_at (photos w' ! 1),
                    photo_deleted_at (photos w' ! 2)]"
      by (metis list.simps(8) list.simps(9))
    with rows [OF that(2)] show ?thesis
      by (simp add: blank_photo_def)
  qed
  have flags: "map pa_hidden (photos_albums w') = [True, False, True]"
    if "length (photos_albums w') = length (photos_albums library_example)"
      and "\<forall>i < length (photos_albums library_example).
           (pa_photo_uid (photos_albums library_example ! i) \<in> set (Photos ?f)
              \<and> (\<exists>p \<in> set (photos library_example).
                     photo_uid p = pa_photo_uid (photos_albums library_example ! i)) \<longrightarrow>
              photos_albums w' ! i = (photos_albums library_example ! i)\<lparr>pa_hidden := True\<rparr>)
         \<and> (pa_photo_uid (photos_albums library_example ! i) \<notin> set (Photos ?f) \<longrightarrow>
              photos_albums w' ! i = photos_albums library_example ! i)" for w'
  proof -
    from that(1) have "photos_albums w'
                         = [photos_albums w' ! 0, photos_albums w' ! 1, photos_albums w' ! 2]"
      by (intro three) (simp add: len)
    then have "map pa_hidden (photos_albums w')
                 = [pa_hidden (photos_albums w' ! 0), pa_hidden (photos_albums w' ! 1),
                    pa_hidden (photos_albums w' ! 2)]"
      by (metis list.simps(8) list.simps(9))
    with that(2) [rule_format, of 0] that(2) [rule_format, of 1] that(2) [rule_format, of 2]
    show ?thesis
      by (simp add: library_example_rows blank_photo_def)
  qed
  have y1: "fst (BatchPhotosArchive backup_on ?c library_example) = JSON StatusOK MsgSelectionArchived"
    and y2: "map photo_deleted_at (photos ?y) = [Some 1000, None, Some 7]"
    and y3: "map pa_hidden (photos_albums ?y) = [True, False, True]"
    using Y stamps [of ?y] flags [of ?y] by blast+
  have d1: "fst (BatchPhotosArchive deletion_on ?c library_example) = JSON StatusOK MsgSelectionArchived"
    and d2: "map photo_deleted_at (photos ?d) = [Some 1000, None, Some 7]"
    and d3: "map pa_hidden (photos_albums ?d) = [True, False, True]"
    using D stamps [of ?d] flags [of ?d] by blast+
  have some: "BackupYaml conf \<Longrightarrow> \<exists>p \<in> set (photos library_example). photo_uid p \<in> set (Photos ?f)"
    for conf
    using ex by simp
  have ty: "trace ?y
       = [LogInfo ''photos: archiving'', Read photos_tbl, Write photos_tbl, SaveYaml ''p1'',
          Write photos_tbl, SaveYaml ''p3'',
          Recount, ClientConfig, Notify ''archived'' ''photos'' (UIDs [''p1'', ''p3'', ''p9''])]"
    by (simp add: BatchPhotosArchive_run [OF selecting_simps(1) selecting_simps(2) n
             library_example_rows(3) some] backup_on_def library_example_rows blank_photo_def)
  have td: "trace ?d
       = [LogInfo ''photos: archiving'', Write photos_tbl, Write photos_albums_tbl,
          Recount, ClientConfig, Notify ''archived'' ''photos'' (UIDs [''p1'', ''p3'', ''p9''])]"
    by (simp add: BatchPhotosArchive_run [OF selecting_simps(1) selecting_simps(2) n
             library_example_rows(3) some] deletion_on_def library_example_rows)
  from N have n1: "fst ?n = AbortEntityNotFound"
    and n2: "(snd ?n)\<lparr>trace := trace library_example\<rparr> = library_example"
    by blast+
  from n2 have "photos ((snd ?n)\<lparr>trace := trace library_example\<rparr>) = photos library_example"
    by (rule arg_cong)
  then have n3: "photos (snd ?n) = photos library_example"
    by simp
  show ?thesis
    using y1 y2 y3 ty d1 d2 d3 td n1 n3 by (simp add: selecting_simps library_example_rows)
qed

text \<open>
  The claim as it is worded, for every non-empty selection, fails where YAML backups are
  kept and the selection names no photo of the store: the handler answers not-found and
  neither recomputes the counts nor emits an event.
\<close>

theorem BatchPhotosArchive_not_found_counterexample:
  "Auth (selecting [''p9'']) ResourcePhotos ActionDelete
   \<and> json (selecting [''p9'']) = Some \<lparr>Photos = [''p9''], Albums = [], Labels = []\<rparr>
   \<and> faults library_example = []
   \<and> BackupYaml backup_on
   \<and> fst (BatchPhotosArchive backup_on (selecting [''p9'']) library_example)
       = AbortEntityNotFound
   \<and> trace (snd (BatchPhotosArchive backup_on (selecting [''p9'']) library_example))
       = [LogInfo ''photos: archiving'', Read photos_tbl]
   \<and> filter is_notify
        (trace (snd (BatchPhotosArchive backup_on (selecting [''p9'']) library_example))) = []"
  by (simp add: BatchPhotosArchive_def PhotoSelection_def attempt_def emit_def selecting_simps
        backup_on_def library_example_rows blank_photo_def)













subsection \<open>Permanent deletion\<close>

lemma Delete_cases:
  "Delete p w =
     (case faults w of
        [] \<Rightarrow> (True, w\<lparr>photos := filter (\<lambda>q. photo_uid q \<noteq> photo_uid p) (photos w),
                          files := filter (\<lambda>f. file_photo_uid f \<noteq> photo_uid p) (files w),
                          trace := trace w @ [Remove (photo_uid p)]\<rparr>)
      | True # bs \<Rightarrow> (False, w\<lparr>faults := bs, trace := trace w @ [Remove (photo_uid p)]\<rparr>)
      | False # bs \<Rightarrow>
          (True, w\<lparr>photos := filter (\<lambda>q. photo_uid q \<noteq> photo_uid p) (photos w),
                    files := filter (\<lambda>f. file_photo_uid f \<noteq> photo_uid p) (files w),
                    faults := bs, trace := trace w @ [Remove (photo_uid p)]\<rparr>))"
  by (simp add: Delete_def attempt_def emit_def split: list.splits bool.splits)

lemma removed_Nil [simp]: "removed ps [] = ps"
  by (cases ps) simp_all

lemma refused_Nil [simp]: "refused ps [] = []"
  by (cases ps) simp_all

lemma delete_loop_run:
  "delete_loop ps acc w =
     (acc @ removed ps (faults w),
      w\<lparr>photos := filter (\<lambda>q. photo_uid q \<notin> photo_uid ` set (removed ps (faults w))) (photos w),
        files := filter (\<lambda>f. file_photo_uid f \<notin> photo_uid ` set (removed ps (faults w))) (files w),
        faults := drop (length ps) (faults w),
        trace := trace w @ removal_trace ps (faults w)\<rparr>)"
proof (induction ps arbitrary: acc w)
  case Nil
  show ?case by simp
next
  case (Cons p ps)
  show ?case
  proof (cases "faults w")
    case Nil
    then show ?thesis
      by (simp add: Delete_cases Cons.IH conj_commute)
  next
    case (Cons b bs)
    then show ?thesis
      by (cases b) (simp_all add: Delete_cases Cons.IH emit_def conj_commute)
  qed
qed

lemma removal_trace_removes:
  "filter is_remove (removal_trace ps rs) = map (\<lambda>p. Remove (photo_uid p)) ps"
  by (induction ps rs rule: removal_trace.induct) simp_all

lemma removal_trace_logs:
  "filter (\<lambda>e. e = LogError ''delete'') (removal_trace ps rs)
     = map (\<lambda>p. LogError ''delete'') (refused ps rs)"
  by (induction ps rs rule: removal_trace.induct) simp_all

lemma removal_trace_quiet:
  "filter (\<lambda>e. e = Recount) (removal_trace ps rs) = []"
  "filter is_notify (removal_trace ps rs) = []"
  by (induction ps rs rule: removal_trace.induct) simp_all

lemma recount_trace:
  "\<exists>es. trace (logError ''photos'' (UpdatePhotoCounts w)) = trace w @ Recount # es
        \<and> set es \<subseteq> {LogError ''photos''}
        \<and> photos (logError ''photos'' (UpdatePhotoCounts w)) = photos w"
  by (cases "faults w"; cases "hd (faults w)")
     (simp_all add: UpdatePhotoCounts_def logError_def attempt_def emit_def)

lemma only_count_errors:
  assumes "set es \<subseteq> {LogError ''photos''}"
  shows "filter is_remove es = []" and "filter (\<lambda>e. e = LogError ''delete'') es = []"
    and "filter (\<lambda>e. e = Recount) es = []" and "filter is_notify es = []"
  using assms by (auto simp: filter_empty_conv)

text \<open>
  Claim C2, as the code has it.  Take an allowed request for permanent deletion with
  deletion enabled, a store that is not read-only and a non-empty selection that
  resolves to the photos \<open>ps\<close>.  The handler answers with success whatever the removals
  do.  It attempts the removal of every photo of \<open>ps\<close>, in order; each failed removal is
  logged and the loop goes on.  The photo rows that are gone afterwards are those of the
  photos whose removal succeeded.  If at least one removal succeeded, the counts are
  recomputed exactly once and exactly one \<open>deleted\<close> event for \<open>photos\<close> is emitted,
  carrying the identifiers of the photos whose removal succeeded; if none succeeded,
  there is no recomputation and no event.
\<close>

theorem BatchPhotosDelete_partial:
  assumes "Auth c ResourcePhotos ActionDelete" and "\<not> ReadOnly conf" and "FeaturesDelete conf"
      and "json c = Some f" and "Photos f \<noteq> []"
      and "PhotoSelection f (emit (LogInfo ''photos: deleting'') w) = (Some ps, w0)"
  shows "fst (BatchPhotosDelete conf c w) = JSON StatusOK MsgPermanentlyDeleted
     \<and> filter is_remove (news w (snd (BatchPhotosDelete conf c w)))
         = map (\<lambda>p. Remove (photo_uid p)) ps
     \<and> filter (\<lambda>e. e = LogError ''delete'') (news w (snd (BatchPhotosDelete conf c w)))
         = map (\<lambda>p. LogError ''delete'') (refused ps (faults w0))
     \<and> photos (snd (BatchPhotosDelete conf c w))
         = filter (\<lambda>q. photo_uid q \<notin> photo_uid ` set (removed ps (faults w0))) (photos w)
     \<and> filter (\<lambda>e. e = Recount) (news w (snd (BatchPhotosDelete conf c w)))
         = (if removed ps (faults w0) = [] then [] else [Recount])
     \<and> filter is_notify (news w (snd (BatchPhotosDelete conf c w)))
         = (if removed ps (faults w0) = [] then []
            else [Notify ''deleted'' ''photos'' (UIDs (map photo_uid (removed ps (faults w0))))])"
proof -
  let ?del = "removed ps (faults w0)"
  let ?w2 = "snd (delete_loop ps [] w0)"
  let ?w' = "snd (BatchPhotosDelete conf c w)"
  have t0: "trace w0 = trace w @ [LogInfo ''photos: deleting'', Read photos_tbl]"
    and p0: "photos w0 = photos w"
    using assms(6)
    by (auto simp: PhotoSelection_def attempt_def emit_def split: list.splits bool.splits)
  have d: "fst (delete_loop ps [] w0) = ?del"
    by (simp add: delete_loop_run)
  have t2: "trace ?w2 = trace w @ [LogInfo ''photos: deleting'', Read photos_tbl]
                          @ removal_trace ps (faults w0)"
    and p2: "photos ?w2 = filter (\<lambda>q. photo_uid q \<notin> photo_uid ` set ?del) (photos w)"
    by (simp_all add: delete_loop_run t0 p0)
  have run: "BatchPhotosDelete conf c w =
       (JSON StatusOK MsgPermanentlyDeleted,
        if length ?del > 0
        then EntitiesDeleted ''photos'' (map photo_uid ?del)
               (UpdateClientConfig (logError ''photos'' (UpdatePhotoCounts ?w2)))
        else ?w2)"
    using assms(1-5) by (simp add: BatchPhotosDelete_def assms(6) case_prod_beta d)
  have r: "fst (BatchPhotosDelete conf c w) = JSON StatusOK MsgPermanentlyDeleted"
    by (simp add: run)
  show ?thesis
  proof (cases "?del = []")
    case True
    then have "?w' = ?w2"
      by (simp add: run)
    with True show ?thesis
      by (simp add: r news_def t2 p2 removal_trace_removes removal_trace_logs
            removal_trace_quiet)
  next
    case False
    obtain es where tr: "trace (logError ''photos'' (UpdatePhotoCounts ?w2))
                           = trace ?w2 @ Recount # es"
      and es: "set es \<subseteq> {LogError ''photos''}"
      and pr: "photos (logError ''photos'' (UpdatePhotoCounts ?w2)) = photos ?w2"
      using recount_trace [of ?w2] by blast
    from False have w': "?w' = EntitiesDeleted ''photos'' (map photo_uid ?del)
               (UpdateClientConfig (logError ''photos'' (UpdatePhotoCounts ?w2)))"
      by (simp add: run)
    have t': "news w ?w' = [LogInfo ''photos: deleting'', Read photos_tbl]
                @ removal_trace ps (faults w0)
                @ Recount # es
                @ [ClientConfig, Notify ''deleted'' ''photos'' (UIDs (map photo_uid ?del))]"
      by (simp add: w' EntitiesDeleted_def UpdateClientConfig_def emit_simps tr t2 news_def)
    have p': "photos ?w' = filter (\<lambda>q. photo_uid q \<notin> photo_uid ` set ?del) (photos w)"
      by (simp add: w' EntitiesDeleted_def UpdateClientConfig_def emit_simps pr p2)
    from False show ?thesis
      by (simp add: r t' p' removal_trace_removes removal_trace_logs removal_trace_quiet
            only_count_errors [OF es])
  qed
qed

theorem BatchPhotosDelete_partial_witness:
  "Auth (selecting [''p1'', ''p2'', ''p3'']) ResourcePhotos ActionDelete
   \<and> \<not> ReadOnly deletion_on \<and> FeaturesDelete deletion_on
   \<and> fst (PhotoSelection \<lparr>Photos = [''p1'', ''p2'', ''p3''], Albums = [], Labels = []\<rparr>
            (emit (LogInfo ''photos: deleting'') removal_example))
       = Some [blank_photo\<lparr>photo_uid := ''p1''\<rparr>, blank_photo\<lparr>photo_uid := ''p2''\<rparr>,
               blank_photo\<lparr>photo_uid := ''p3''\<rparr>]
   \<and> fst (BatchPhotosDelete deletion_on (selecting [''p1'', ''p2'', ''p3'']) removal_example)
       = JSON StatusOK MsgPermanentlyDeleted
   \<and> filter is_remove
        (trace (snd (BatchPhotosDelete deletion_on (selecting [''p1'', ''p2'', ''p3''])
                       removal_example)))
       = [Remove ''p1'', Remove ''p2'', Remove ''p3'']
   \<and> count_list
        (trace (snd (BatchPhotosDelete deletion_on (selecting [''p1'', ''p2'', ''p3''])
                       removal_example))) (LogError ''delete'') = 1
   \<and> map photo_uid
        (photos (snd (BatchPhotosDelete deletion_on (selecting [''p1'', ''p2'', ''p3''])
                        removal_example))) = [''p2'']
   \<and> count_list
        (trace (snd (BatchPhotosDelete deletion_on (selecting [''p1'', ''p2'', ''p3''])
                       removal_example))) Recount = 1
   \<and> filter is_notify
        (trace (snd (BatchPhotosDelete deletion_on (selecting [''p1'', ''p2'', ''p3''])
                       removal_example)))
       = [Notify ''deleted'' ''photos'' (UIDs [''p1'', ''p3''])]"
proof -
  let ?c = "selecting [''p1'', ''p2'', ''p3'']"
  let ?f = "\<lparr>Photos = [''p1'', ''p2'', ''p3''], Albums = [], Labels = []\<rparr>"
  let ?ps = "[blank_photo\<lparr>photo_uid := ''p1''\<rparr>, blank_photo\<lparr>photo_uid := ''p2''\<rparr>,
              blank_photo\<lparr>photo_uid := ''p3''\<rparr>]"
  let ?w0 = "removal_example\<lparr>faults := [False, True, False],
                trace := [LogInfo ''photos: deleting'', Read photos_tbl]\<rparr>"
  let ?w' = "snd (BatchPhotosDelete deletion_on ?c removal_example)"
  have g: "\<not> ReadOnly deletion_on" "FeaturesDelete deletion_on"
    by (simp_all add: deletion_on_def)
  have n: "Photos ?f \<noteq> []"
    by simp
  have sel: "PhotoSelection ?f (emit (LogInfo ''photos: deleting'') removal_example) = (Some ?ps, ?w0)"
    by (simp add: PhotoSelection_def attempt_def emit_def removal_example_def blank_world_def
          blank_photo_def)
  have t: "trace removal_example = []" and p: "photos removal_example = ?ps"
    and f0: "faults ?w0 = [False, True, False]"
    by (simp_all add: removal_example_def blank_world_def)
  have rm: "removed ?ps [False, True, False]
              = [blank_photo\<lparr>photo_uid := ''p1''\<rparr>, blank_photo\<lparr>photo_uid := ''p3''\<rparr>]"
    and rf: "refused ?ps [False, True, False] = [blank_photo\<lparr>photo_uid := ''p2''\<rparr>]"
    by simp_all
  note T = BatchPhotosDelete_partial [OF selecting_simps(1) g selecting_simps(2) n sel]
  from T have r: "fst (BatchPhotosDelete deletion_on ?c removal_example)
                    = JSON StatusOK MsgPermanentlyDeleted"
    and a: "filter is_remove (trace ?w') = [Remove ''p1'', Remove ''p2'', Remove ''p3'']"
    and l: "filter (\<lambda>e. e = LogError ''delete'') (trace ?w') = [LogError ''delete'']"
    and k: "map photo_uid (photos ?w') = [''p2'']"
    and u: "filter (\<lambda>e. e = Recount) (trace ?w') = [Recount]"
    and e: "filter is_notify (trace ?w') = [Notify ''deleted'' ''photos'' (UIDs [''p1'', ''p3''])]"
    unfolding f0 rm rf by (simp_all add: news_def t p blank_photo_def)
  have flip: "filter ((=) x) xs = filter (\<lambda>e. e = x) xs" for x :: effect and xs
    by (rule filter_cong) auto
  have c1: "count_list (trace ?w') (LogError ''delete'') = 1"
    by (simp add: count_list_eq_length_filter flip l)
  have c2: "count_list (trace ?w') Recount = 1"
    by (simp add: count_list_eq_length_filter flip u)
  show ?thesis
    using g sel r a k e c1 c2 by (simp add: selecting_simps)
qed

text \<open>
  The claim as it is worded, exactly one \<open>deleted\<close> event for every non-empty selection,
  fails when no removal succeeds: one photo is selected and its removal fails; the
  handler answers with success, logs the failure, and emits no event.
\<close>

theorem BatchPhotosDelete_no_event_counterexample:
  "Auth (selecting [''p1'']) ResourcePhotos ActionDelete
   \<and> json (selecting [''p1'']) = Some \<lparr>Photos = [''p1''], Albums = [], Labels = []\<rparr>
   \<and> fst (BatchPhotosDelete deletion_on (selecting [''p1'']) stuck_example)
       = JSON StatusOK MsgPermanentlyDeleted
   \<and> trace (snd (BatchPhotosDelete deletion_on (selecting [''p1'']) stuck_example))
       = [LogInfo ''photos: deleting'', Read photos_tbl, Remove ''p1'', LogError ''delete'']
   \<and> filter is_notify
        (trace (snd (BatchPhotosDelete deletion_on (selecting [''p1'']) stuck_example))) = []"
  by (simp add: BatchPhotosDelete_def PhotoSelection_def Delete_def attempt_def emit_def
        selecting_simps deletion_on_def stuck_example_def blank_world_def blank_photo_def)

end
